theory Spec2Isabelle
  imports Main
begin

section \<open>The darts scoring core: Throw, Player, Game (src/darts.js)\<close>

text \<open>
  The three classes of \<^verbatim>\<open>src/darts.js\<close> are embedded as records with explicit state
  passing: a method that mutates \<^verbatim>\<open>this\<close> takes the object and returns the updated one.

  \<^bold>\<open>Values.\<close> A JavaScript number is an IEEE double.  The numbers of this program are
  501, 50, 25, 0, the multipliers 1..3, results of \<^verbatim>\<open>parseInt\<close>, and sums, differences
  and products of these: each is NaN, an infinity, or an integer (a double of magnitude
  \<open>2^53\<close> or more is an integer, and the correctly rounded sum, difference or product of
  two integers is one).  So a number is modelled as \<open>jsnum\<close>: \<open>NaN\<close>, \<open>PInf\<close>,
  \<open>NInf\<close> or \<open>Fin n\<close> for an integer \<open>n\<close>, and every operation computes the exact
  integer result and rounds it to the nearest double with \<open>toDouble\<close> (ties to even,
  overflow to an infinity), as IEEE arithmetic does.  The sign of zero is outside the
  model.  Equality of \<open>jsnum\<close> is sameness of value, so \<open>NaN = NaN\<close> here.

  A string is a list of code units; the model has the code units \<open>0..255\<close> (type
  \<open>char\<close>).  A segment identifier is a string or is absent (\<^verbatim>\<open>undefined\<close>, or the
  \<^verbatim>\<open>null\<close> that \<^verbatim>\<open>getAttribute("id")\<close> yields for an element without id).
\<close>

datatype jsnum = NaN | Fin int | PInf | NInf

datatype ident = Undefined | Null | Str string

text \<open>The fields \<^verbatim>\<open>id\<close>, \<^verbatim>\<open>total\<close> and \<^verbatim>\<open>currentScore\<close> of a Throw hold
  \<^verbatim>\<open>undefined\<close>, a string (the placeholder \<^verbatim>\<open>"-"\<close>) or a number.\<close>

datatype jsval = VUndefined | VStr string | VNum jsnum

datatype error = TypeError

subsection \<open>Double precision: rounding an integer to the nearest double\<close>

text \<open>
  A double has a significand of 53 bits: \<open>9007199254740992\<close> is \<open>2^53\<close>.  For a
  magnitude \<open>m \<ge> 0\<close>, \<open>exponentOf m\<close> is the number \<open>e\<close> of low bits that do not
  fit, so that \<open>m div 2^e\<close> is below \<open>2^53\<close>; the doubles around \<open>m\<close> are the
  multiples of \<open>2^e\<close>.  \<open>roundInt\<close> rounds to the nearest of them, and to the one
  with the even significand when \<open>m\<close> lies half way.  A result of \<open>2^1024\<close> or more
  is beyond the largest double and becomes an infinity.
\<close>

function exponentOf :: "int \<Rightarrow> nat" where
  "exponentOf m = (if m < 9007199254740992 then 0 else Suc (exponentOf (m div 2)))"
  by pat_completeness auto
termination
  by (relation "measure nat") auto

declare exponentOf.simps [simp del]

definition roundInt :: "int \<Rightarrow> int" where
  "roundInt m =
     (let e = exponentOf m; q = m div 2 ^ e; r = m mod 2 ^ e
      in (if 2 ^ e < 2 * r \<or> (2 * r = 2 ^ e \<and> odd q) then q + 1 else q) * 2 ^ e)"

definition toDouble :: "int \<Rightarrow> jsnum" where
  "toDouble n =
     (let v = roundInt \<bar>n\<bar>
      in if 2 ^ 1024 \<le> v then (if n < 0 then NInf else PInf)
         else Fin (if n < 0 then - v else v))"

text \<open>The operators \<^verbatim>\<open>+\<close>, \<^verbatim>\<open>-\<close> and \<^verbatim>\<open>*\<close> on numbers.\<close>

fun js_add :: "jsnum \<Rightarrow> jsnum \<Rightarrow> jsnum" where
  "js_add (Fin a) (Fin b) = toDouble (a + b)"
| "js_add NaN _ = NaN"
| "js_add _ NaN = NaN"
| "js_add PInf NInf = NaN"
| "js_add NInf PInf = NaN"
| "js_add PInf _ = PInf"
| "js_add _ PInf = PInf"
| "js_add NInf _ = NInf"
| "js_add _ NInf = NInf"

fun js_sub :: "jsnum \<Rightarrow> jsnum \<Rightarrow> jsnum" where
  "js_sub (Fin a) (Fin b) = toDouble (a - b)"
| "js_sub NaN _ = NaN"
| "js_sub _ NaN = NaN"
| "js_sub PInf PInf = NaN"
| "js_sub NInf NInf = NaN"
| "js_sub PInf _ = PInf"
| "js_sub _ NInf = PInf"
| "js_sub NInf _ = NInf"
| "js_sub _ PInf = NInf"

fun js_mul :: "jsnum \<Rightarrow> jsnum \<Rightarrow> jsnum" where
  "js_mul (Fin a) (Fin b) = toDouble (a * b)"
| "js_mul NaN _ = NaN"
| "js_mul _ NaN = NaN"
| "js_mul (Fin a) PInf = (if a = 0 then NaN else if 0 < a then PInf else NInf)"
| "js_mul (Fin a) NInf = (if a = 0 then NaN else if 0 < a then NInf else PInf)"
| "js_mul PInf (Fin b) = (if b = 0 then NaN else if 0 < b then PInf else NInf)"
| "js_mul NInf (Fin b) = (if b = 0 then NaN else if 0 < b then NInf else PInf)"
| "js_mul PInf PInf = PInf"
| "js_mul PInf NInf = NInf"
| "js_mul NInf PInf = NInf"
| "js_mul NInf NInf = PInf"

subsection \<open>The built-in \<^verbatim>\<open>parseInt\<close> with no radix argument\<close>

text \<open>
  ECMAScript \<^verbatim>\<open>parseInt(string)\<close>: leading white space is trimmed, one sign is
  taken, a prefix \<^verbatim>\<open>0x\<close> or \<^verbatim>\<open>0X\<close> switches the radix from 10 to 16, and the longest
  prefix of digits of that radix is the number; when that prefix is empty the result is
  NaN.  The result is the Number value of the signed integer, that is, the integer
  rounded to the nearest double.  (The standard lets an implementation read decimal
  digits after the twentieth as 0; the model, like the common engines, reads all
  digits.)  The white space and line terminators among the code units \<open>0..255\<close> are
  TAB, LF, VT, FF, CR, SP and NBSP.
\<close>

definition StrWhiteSpaceChar :: "char \<Rightarrow> bool" where
  "StrWhiteSpaceChar c \<longleftrightarrow>
     c \<in> set [CHR 0x09, CHR 0x0A, CHR 0x0B, CHR 0x0C, CHR 0x0D, CHR 0x20, CHR 0xA0]"

definition digitValue :: "char \<Rightarrow> nat option" where
  "digitValue c =
     (let n = (of_char c :: nat) in
      if 48 \<le> n \<and> n \<le> 57 then Some (n - 48)
      else if 97 \<le> n \<and> n \<le> 122 then Some (n - 87)
      else if 65 \<le> n \<and> n \<le> 90 then Some (n - 55)
      else None)"

definition radixDigit :: "nat \<Rightarrow> char \<Rightarrow> bool" where
  "radixDigit R c = (case digitValue c of None \<Rightarrow> False | Some d \<Rightarrow> d < R)"

definition mathInt :: "nat \<Rightarrow> string \<Rightarrow> int" where
  "mathInt R Z =
     foldl (\<lambda>a c. case digitValue c of None \<Rightarrow> a | Some d \<Rightarrow> a * int R + int d) 0 Z"

definition parseInt :: "string \<Rightarrow> jsnum" where
  "parseInt inputString =
     (let S0 = dropWhile StrWhiteSpaceChar inputString;
          sign = (if S0 \<noteq> [] \<and> hd S0 = CHR ''-'' then - 1 else (1::int));
          S1 = (if S0 \<noteq> [] \<and> (hd S0 = CHR ''+'' \<or> hd S0 = CHR ''-'') then tl S0 else S0);
          stripPrefix = (2 \<le> length S1 \<and> (take 2 S1 = ''0x'' \<or> take 2 S1 = ''0X''));
          R = (if stripPrefix then 16 else 10);
          S2 = (if stripPrefix then drop 2 S1 else S1);
          Z = takeWhile (radixDigit R) S2
      in if Z = [] then NaN else toDouble (sign * mathInt R Z))"

subsection \<open>Throw\<close>

text \<open>
  \<^verbatim>\<open>this.darts\<close> is an object used as a dictionary from property names to identifiers;
  reading a property that was never written gives \<^verbatim>\<open>undefined\<close>.  It is modelled as a
  total function from names to identifiers whose default is \<open>Undefined\<close>, and
  \<^verbatim>\<open>this.darts[dart] = id\<close> is the function update.
\<close>

record Throw =
  id' :: jsval
  darts :: "string \<Rightarrow> ident"
  total :: jsval
  currentScore :: jsval

text \<open>The constructor, lines 19-43.\<close>

definition new_Throw :: "jsval \<Rightarrow> ident \<Rightarrow> ident \<Rightarrow> ident \<Rightarrow> jsval \<Rightarrow> jsval \<Rightarrow> Throw" where
  "new_Throw i d1 d2 d3 tot cs =
     \<lparr> id' = i,
       darts = (\<lambda>k. Undefined)(''one'' := d1, ''two'' := d2, ''three'' := d3),
       total = tot,
       currentScore = cs \<rparr>"

text \<open>\<^verbatim>\<open>!id\<close>: an absent identifier and the empty string are falsy.\<close>

fun falsy :: "ident \<Rightarrow> bool" where
  "falsy Undefined = True"
| "falsy Null = True"
| "falsy (Str s) = (s = [])"

text \<open>\<^verbatim>\<open>x == undefined\<close>, the loose comparison of lines 129-131: true of
  \<^verbatim>\<open>undefined\<close> and of \<^verbatim>\<open>null\<close>, false of every string.\<close>

fun looseUndefined :: "ident \<Rightarrow> bool" where
  "looseUndefined Undefined = True"
| "looseUndefined Null = True"
| "looseUndefined (Str s) = False"

text \<open>Lines 57-82.  The function reads nothing of \<^verbatim>\<open>this\<close> and writes nothing.  After
  the guard \<^verbatim>\<open>!id\<close> the identifier is a non-empty string, \<^verbatim>\<open>id[0]\<close> is its first code
  unit and \<^verbatim>\<open>id.substr(1)\<close> the rest.\<close>

definition getDartValueFromID :: "ident \<Rightarrow> jsnum" where
  "getDartValueFromID i =
     (if falsy i then Fin 0
      else case i of
        Str s \<Rightarrow>
          if s = ''Bull'' then Fin 50
          else if s = ''Outer'' then Fin 25
          else
            let mod' = (if hd s = CHR ''s'' then 1
                        else if hd s = CHR ''d'' then 2
                        else if hd s = CHR ''t'' then 3
                        else (1::int))
            in js_mul (Fin mod') (parseInt (tl s))
      | _ \<Rightarrow> Fin 0)"

text \<open>Lines 87-91: map over the three slots, then reduce with \<^verbatim>\<open>+\<close> from 0.\<close>

definition calculateTotal :: "Throw \<Rightarrow> Throw" where
  "calculateTotal t =
     t\<lparr>total := VNum (foldl js_add (Fin 0)
          (map getDartValueFromID [darts t ''one'', darts t ''two'', darts t ''three'']))\<rparr>"

text \<open>Lines 101-104: stores the new score on the Throw and returns it.\<close>

definition calculateCurrentScore :: "jsnum \<Rightarrow> ident \<Rightarrow> Throw \<Rightarrow> jsnum \<times> Throw" where
  "calculateCurrentScore prevCurrentScore i t =
     (let v = js_sub prevCurrentScore (getDartValueFromID i)
      in (v, t\<lparr>currentScore := VNum v\<rparr>))"

text \<open>Lines 111-113: the strict comparison \<^verbatim>\<open>!== undefined\<close>.\<close>

definition isThrowComplete :: "Throw \<Rightarrow> bool" where
  "isThrowComplete t \<longleftrightarrow> darts t ''three'' \<noteq> Undefined"

text \<open>Lines 126-141.  The method has no \<^verbatim>\<open>return\<close> statement, so its result is
  \<^verbatim>\<open>undefined\<close>; the value that \<^verbatim>\<open>calculateCurrentScore\<close> returns is dropped.\<close>

definition Throw_addDart :: "ident \<Rightarrow> jsnum \<Rightarrow> Throw \<Rightarrow> jsval \<times> Throw" where
  "Throw_addDart i cs t =
     (let dart0 = '''';
          dart1 = (if looseUndefined (darts t ''three'') then ''three'' else dart0);
          dart2 = (if looseUndefined (darts t ''two'') then ''two'' else dart1);
          dart = (if looseUndefined (darts t ''one'') then ''one'' else dart2);
          t1 = t\<lparr>darts := (darts t)(dart := i)\<rparr>;
          t2 = calculateTotal t1;
          t3 = snd (calculateCurrentScore cs i t2)
      in (VUndefined, t3))"

subsection \<open>Player\<close>

record Player =
  id' :: int
  currentScore :: jsnum
  throws :: "Throw list"

text \<open>Line 169: the placeholder row, built with \<^verbatim>\<open>"-"\<close> as id, as the three slots and
  as total, and with the starting score.\<close>

definition new_Player :: "int \<Rightarrow> Player" where
  "new_Player i =
     \<lparr> id' = i,
       currentScore = Fin 501,
       throws = [new_Throw (VStr ''-'') (Str ''-'') (Str ''-'') (Str ''-'') (VStr ''-'')
                   (VNum (Fin 501))] \<rparr>"

text \<open>Lines 175-177: \<^verbatim>\<open>this.throws[this.throws.length - 1]\<close> is \<^verbatim>\<open>undefined\<close> (here
  \<open>None\<close>) on an empty array.\<close>

definition currentThrow :: "Player \<Rightarrow> Throw option" where
  "currentThrow p = (if throws p = [] then None else Some (last (throws p)))"

text \<open>Writing through the reference that \<^verbatim>\<open>currentThrow\<close> returned updates the last
  element of the array.\<close>

definition set_currentThrow :: "Throw \<Rightarrow> Player \<Rightarrow> Player" where
  "set_currentThrow t p = p\<lparr>throws := (throws p)[length (throws p) - 1 := t]\<rparr>"

text \<open>Lines 185-193.  Calling a method on \<^verbatim>\<open>undefined\<close> raises a TypeError.
  \<^verbatim>\<open>new Throw(this.throws.length)\<close> leaves the five other parameters
  \<^verbatim>\<open>undefined\<close>.\<close>

definition Player_addDart :: "ident \<Rightarrow> Player \<Rightarrow> error + Player" where
  "Player_addDart i p =
     (case currentThrow p of
        None \<Rightarrow> Inl TypeError
      | Some t \<Rightarrow>
          let p1 = (if isThrowComplete t
                    then p\<lparr>throws := throws p @
                           [new_Throw (VNum (Fin (int (length (throws p)))))
                              Undefined Undefined Undefined VUndefined VUndefined]\<rparr>
                    else p)
          in (case currentThrow p1 of
                None \<Rightarrow> Inl TypeError
              | Some t1 \<Rightarrow>
                  Inr (set_currentThrow (snd (Throw_addDart i (Player.currentScore p1) t1)) p1)))"

subsection \<open>Game\<close>

text \<open>
  \<^verbatim>\<open>this.player\<close> holds the two Player objects under the keys \<^verbatim>\<open>one\<close> and
  \<^verbatim>\<open>two\<close>; \<^verbatim>\<open>this.currentPlayer\<close> is a reference to one of these two objects, and
  is modelled by the key of the object it points to, so that a write through
  \<^verbatim>\<open>this.currentPlayer\<close> is a write to that entry of \<^verbatim>\<open>this.player\<close>.
\<close>

datatype PlayerKey = P_one | P_two

record Game =
  player :: "PlayerKey \<Rightarrow> Player"
  currentPlayer :: PlayerKey

definition new_Game :: Game where
  "new_Game =
     \<lparr> player = (\<lambda>k. case k of P_one \<Rightarrow> new_Player 1 | P_two \<Rightarrow> new_Player 2),
       currentPlayer = P_one \<rparr>"

text \<open>Lines 223-226.\<close>

definition switchPlayers :: "Game \<Rightarrow> Game" where
  "switchPlayers g =
     g\<lparr>currentPlayer :=
         (if Player.id' (player g (currentPlayer g)) = 1 then P_two else P_one)\<rparr>"

text \<open>Lines 237-252.  In step 2 the argument \<^verbatim>\<open>this.currentPlayer.currentScore\<close> is
  read before the assignment to it.\<close>

definition Game_addDart :: "ident \<Rightarrow> Game \<Rightarrow> error + Game" where
  "Game_addDart i g =
     (let k = currentPlayer g in
      case Player_addDart i (player g k) of
        Inl e \<Rightarrow> Inl e
      | Inr p1 \<Rightarrow>
          (case currentThrow p1 of
             None \<Rightarrow> Inl TypeError
           | Some t \<Rightarrow>
               let r = calculateCurrentScore (Player.currentScore p1) i t;
                   p2 = (set_currentThrow (snd r) p1)\<lparr>Player.currentScore := fst r\<rparr>;
                   g2 = g\<lparr>player := (player g)(k := p2)\<rparr>
               in (case currentThrow p2 of
                     None \<Rightarrow> Inl TypeError
                   | Some t2 \<Rightarrow> Inr (if isThrowComplete t2 then switchPlayers g2 else g2))))"

text \<open>Feeding a list of identifiers to \<^verbatim>\<open>Game.addDart\<close>, one call each; an exception
  ends the run.\<close>

fun addDarts :: "ident list \<Rightarrow> Game \<Rightarrow> error + Game" where
  "addDarts [] g = Inr g"
| "addDarts (i # is) g =
     (case Game_addDart i g of Inl e \<Rightarrow> Inl e | Inr g' \<Rightarrow> addDarts is g')"

text \<open>The states of a Game that its one entry point can produce.\<close>

inductive reachable :: "Game \<Rightarrow> bool" where
  fresh: "reachable new_Game"
| step: "reachable g \<Longrightarrow> Game_addDart i g = Inr g' \<Longrightarrow> reachable g'"

subsection \<open>Notions of the claims\<close>

text \<open>The sum of the values of the three slots of a Throw; an unfilled slot is
  \<^verbatim>\<open>undefined\<close> and is worth 0.\<close>

definition slotSum :: "Throw \<Rightarrow> jsnum" where
  "slotSum t =
     js_add (js_add (getDartValueFromID (darts t ''one'')) (getDartValueFromID (darts t ''two'')))
       (getDartValueFromID (darts t ''three''))"

text \<open>The placeholder Throw that the Player constructor puts in the array, and the Throw
  that \<^verbatim>\<open>new Throw(n)\<close> builds in \<^verbatim>\<open>Player.addDart\<close>.\<close>

definition seedThrow :: Throw where
  "seedThrow =
     new_Throw (VStr ''-'') (Str ''-'') (Str ''-'') (Str ''-'') (VStr ''-'') (VNum (Fin 501))"

definition emptyThrow :: "nat \<Rightarrow> Throw" where
  "emptyThrow n =
     new_Throw (VNum (Fin (int n))) Undefined Undefined Undefined VUndefined VUndefined"

text \<open>A sequence of \<^verbatim>\<open>addDart\<close> calls on one Throw, each with its identifier and the
  score passed with it.\<close>

fun Throw_addDarts :: "(ident \<times> jsnum) list \<Rightarrow> Throw \<Rightarrow> Throw" where
  "Throw_addDarts [] t = t"
| "Throw_addDarts (d # ds) t = Throw_addDarts ds (snd (Throw_addDart (fst d) (snd d) t))"

text \<open>An identifier that is a string (possibly empty), as opposed to an absent one.\<close>

fun isStr :: "ident \<Rightarrow> bool" where
  "isStr (Str s) = True"
| "isStr _ = False"

text \<open>Whose turn it is after a run of \<^verbatim>\<open>Game.addDart\<close> calls.\<close>

definition turnAfter :: "ident list \<Rightarrow> Game \<Rightarrow> error + PlayerKey" where
  "turnAfter is g = (case addDarts is g of Inl e \<Rightarrow> Inl e | Inr g' \<Rightarrow> Inr (currentPlayer g'))"

text \<open>The other of the two players.\<close>

fun other :: "PlayerKey \<Rightarrow> PlayerKey" where
  "other P_one = P_two"
| "other P_two = P_one"

text \<open>The identifiers that player \<open>k\<close> receives during a run of \<^verbatim>\<open>Game.addDart\<close>
  calls: those passed while \<open>k\<close> is the current player.\<close>

fun dartsOf :: "PlayerKey \<Rightarrow> ident list \<Rightarrow> Game \<Rightarrow> ident list" where
  "dartsOf k [] g = []"
| "dartsOf k (i # is) g =
     (if currentPlayer g = k then [i] else []) @
     (case Game_addDart i g of Inl e \<Rightarrow> [] | Inr g' \<Rightarrow> dartsOf k is g')"

text \<open>An identifier resolves to a numeric value when its value is not NaN;
  \<open>intValue\<close> is that value when it is finite.\<close>

definition numeric :: "ident \<Rightarrow> bool" where
  "numeric i \<longleftrightarrow> getDartValueFromID i \<noteq> NaN"

definition intValue :: "ident \<Rightarrow> int" where
  "intValue i = (case getDartValueFromID i of Fin n \<Rightarrow> n | _ \<Rightarrow> 0)"

text \<open>A run of identifiers stays within the integers that doubles represent exactly
  when no value is infinite and 501 plus the magnitudes of all values is at most
  \<open>2^53\<close>: then every value and every running score is such an integer.\<close>

definition withinSafeRange :: "ident list \<Rightarrow> bool" where
  "withinSafeRange is \<longleftrightarrow>
     (\<forall>i \<in> set is. getDartValueFromID i \<noteq> PInf \<and> getDartValueFromID i \<noteq> NInf) \<and>
     501 + sum_list (map (\<lambda>i. \<bar>intValue i\<bar>) is) \<le> 9007199254740992"

text \<open>A number that is a double: NaN, an infinity, or an integer that rounding leaves
  as it is.\<close>

definition isDouble :: "jsnum \<Rightarrow> bool" where
  "isDouble x = (case x of Fin k \<Rightarrow> toDouble k = Fin k | _ \<Rightarrow> True)"

subsection \<open>The variant of the design notes without the duplicate computation\<close>

text \<open>
  The specification's design notes describe a variant in which \<^verbatim>\<open>Throw.addDart\<close>
  returns the updated score and Player and Game read it, instead of calling
  \<^verbatim>\<open>calculateCurrentScore\<close> a second time.  These three definitions follow that
  description; they are compared with the code's \<open>Game_addDart\<close>.
\<close>

definition Throw_addDart_returning :: "ident \<Rightarrow> jsnum \<Rightarrow> Throw \<Rightarrow> jsnum \<times> Throw" where
  "Throw_addDart_returning i cs t =
     (let dart0 = '''';
          dart1 = (if looseUndefined (darts t ''three'') then ''three'' else dart0);
          dart2 = (if looseUndefined (darts t ''two'') then ''two'' else dart1);
          dart = (if looseUndefined (darts t ''one'') then ''one'' else dart2);
          t1 = t\<lparr>darts := (darts t)(dart := i)\<rparr>;
          t2 = calculateTotal t1
      in calculateCurrentScore cs i t2)"

definition Player_addDart_returning :: "ident \<Rightarrow> Player \<Rightarrow> error + (jsnum \<times> Player)" where
  "Player_addDart_returning i p =
     (case currentThrow p of
        None \<Rightarrow> Inl TypeError
      | Some t \<Rightarrow>
          let p1 = (if isThrowComplete t
                    then p\<lparr>throws := throws p @
                           [new_Throw (VNum (Fin (int (length (throws p)))))
                              Undefined Undefined Undefined VUndefined VUndefined]\<rparr>
                    else p)
          in (case currentThrow p1 of
                None \<Rightarrow> Inl TypeError
              | Some t1 \<Rightarrow>
                  let r = Throw_addDart_returning i (Player.currentScore p1) t1
                  in Inr (fst r, set_currentThrow (snd r) p1)))"

definition Game_addDart_single :: "ident \<Rightarrow> Game \<Rightarrow> error + Game" where
  "Game_addDart_single i g =
     (let k = currentPlayer g in
      case Player_addDart_returning i (player g k) of
        Inl e \<Rightarrow> Inl e
      | Inr r \<Rightarrow>
          let p2 = (snd r)\<lparr>Player.currentScore := fst r\<rparr>;
              g2 = g\<lparr>player := (player g)(k := p2)\<rparr>
          in (case currentThrow p2 of
                None \<Rightarrow> Inl TypeError
              | Some t2 \<Rightarrow> Inr (if isThrowComplete t2 then switchPlayers g2 else g2)))"

subsection \<open>Closed forms of the two \<^verbatim>\<open>addDart\<close> methods\<close>

text \<open>The array of Throws after \<^verbatim>\<open>Player.addDart\<close>, and the Player after
  \<^verbatim>\<open>Game.addDart\<close>, on a Player whose array is not empty.  They are proved equal to
  what the methods compute (\<open>Player_addDart_eq\<close>, \<open>Game_addDart_eq\<close>).\<close>

definition throwsAfter :: "ident \<Rightarrow> Player \<Rightarrow> Throw list" where
  "throwsAfter i p =
     (if isThrowComplete (last (throws p))
      then throws p @
           [snd (Throw_addDart i (Player.currentScore p) (emptyThrow (length (throws p))))]
      else butlast (throws p) @
           [snd (Throw_addDart i (Player.currentScore p) (last (throws p)))])"

definition playerAfter :: "ident \<Rightarrow> Player \<Rightarrow> Player" where
  "playerAfter i p =
     p\<lparr>throws := throwsAfter i p,
       Player.currentScore := js_sub (Player.currentScore p) (getDartValueFromID i)\<rparr>"

subsection \<open>The representation invariant of a Game\<close>

text \<open>Both players have a non-empty array of Throws, and the identities 1 and 2 under
  the keys \<^verbatim>\<open>one\<close> and \<^verbatim>\<open>two\<close>.\<close>

definition inv :: "Game \<Rightarrow> bool" where
  "inv g \<longleftrightarrow>
     throws (player g P_one) \<noteq> [] \<and> throws (player g P_two) \<noteq> [] \<and>
     Player.id' (player g P_one) = 1 \<and> Player.id' (player g P_two) = 2"

text \<open>The array of Throws of a Player: not empty, the placeholder first, and every later
  Throw with its index as id and with its total equal to the sum of its slots.\<close>

definition throwsOK :: "Throw list \<Rightarrow> bool" where
  "throwsOK ts \<longleftrightarrow>
     ts \<noteq> [] \<and> hd ts = seedThrow \<and>
     (\<forall>n. 0 < n \<and> n < length ts \<longrightarrow>
        total (ts ! n) = VNum (slotSum (ts ! n)) \<and> Throw.id' (ts ! n) = VNum (Fin (int n)))"

text \<open>The state of a fresh Game after a run of \<^verbatim>\<open>Game.addDart\<close> calls (the fresh Game
  itself, should the run raise).\<close>

definition played :: "ident list \<Rightarrow> Game" where
  "played is = (case addDarts is new_Game of Inl e \<Rightarrow> new_Game | Inr g \<Rightarrow> g)"

subsection \<open>Notions of the specification\<close>

text \<open>The ring multiplier of the specification: single 1, double 2, treble 3, any other
  leading character 1.\<close>

definition ringMultiplier :: "char \<Rightarrow> int" where
  "ringMultiplier c =
     (if c = CHR ''s'' then 1 else if c = CHR ''d'' then 2 else if c = CHR ''t'' then 3 else 1)"

text \<open>The decimal numeral of a natural number, as the segment codes write it.\<close>

fun decimal :: "nat \<Rightarrow> string" where
  "decimal n =
     (if n < 10 then [char_of (48 + n)]
      else decimal (n div 10) @ [char_of (48 + n mod 10)])"

declare decimal.simps [simp del]

text \<open>A decimal digit, and a string with no decimal digit in it: the reading of a
  "non-numeric" suffix.\<close>

definition decDigit :: "char \<Rightarrow> bool" where
  "decDigit c \<longleftrightarrow> 48 \<le> (of_char c :: nat) \<and> (of_char c :: nat) \<le> 57"

definition nonNumeric :: "string \<Rightarrow> bool" where
  "nonNumeric s \<longleftrightarrow> (\<forall>c \<in> set s. \<not> decDigit c)"

section \<open>Rounding to doubles\<close>

lemma exponentOf_small: "m < 9007199254740992 \<Longrightarrow> exponentOf m = 0"
  by (subst exponentOf.simps) simp

lemma exponentOf_large:
  "\<not> m < 9007199254740992 \<Longrightarrow> exponentOf m = Suc (exponentOf (m div 2))"
  by (subst exponentOf.simps) simp

lemma exponentOf_bounds:
  "m div 2 ^ exponentOf m < 9007199254740992
   \<and> (0 < exponentOf m \<longrightarrow> 4503599627370496 \<le> m div 2 ^ exponentOf m)"
proof (induction m rule: exponentOf.induct)
  case (1 m)
  show ?case
  proof (cases "m < 9007199254740992")
    case True
    then show ?thesis by (simp add: exponentOf_small)
  next
    case False
    note ih = 1[OF False]
    have e: "exponentOf m = Suc (exponentOf (m div 2))" by (rule exponentOf_large[OF False])
    have d: "m div 2 ^ Suc k = (m div 2) div 2 ^ k" for k
      by (simp add: zdiv_zmult2_eq)
    have eq: "m div 2 ^ exponentOf m = (m div 2) div 2 ^ exponentOf (m div 2)"
      unfolding e by (rule d)
    have low: "4503599627370496 \<le> (m div 2) div 2 ^ exponentOf (m div 2)"
    proof (cases "exponentOf (m div 2)")
      case 0
      with False show ?thesis by simp
    next
      case (Suc k)
      with ih show ?thesis by simp
    qed
    from ih low show ?thesis unfolding eq by simp
  qed
qed

lemma exponentOf_mult:
  "4503599627370496 \<le> q \<Longrightarrow> q < 9007199254740992 \<Longrightarrow> exponentOf (q * 2 ^ e) = e"
proof (induction e)
  case 0
  then show ?case by (simp add: exponentOf_small)
next
  case (Suc e)
  have "1 \<le> (2::int) ^ e" by simp
  with Suc.prems(1) have "q * 1 \<le> q * 2 ^ e" by (intro mult_left_mono) simp_all
  then have "2 * q \<le> q * 2 ^ Suc e" by simp
  then have big: "\<not> q * 2 ^ Suc e < 9007199254740992" using Suc.prems(1) by linarith
  have "(q * 2 ^ Suc e) div 2 = q * 2 ^ e" by simp
  with exponentOf_large[OF big] Suc show ?case by simp
qed

lemma roundInt_small: "0 \<le> m \<Longrightarrow> m < 9007199254740992 \<Longrightarrow> roundInt m = m"
  by (simp add: roundInt_def exponentOf_small)

lemma roundInt_fixed:
  assumes "4503599627370496 \<le> q" "q < 9007199254740992"
  shows "roundInt (q * 2 ^ e) = q * 2 ^ e"
  by (simp add: roundInt_def exponentOf_mult[OF assms])

lemma roundInt_cases:
  assumes "0 \<le> m"
  shows "roundInt m = m \<and> m < 9007199254740992
    \<or> (\<exists>q e. 4503599627370496 \<le> q \<and> q < 9007199254740992 \<and> roundInt m = q * 2 ^ e)"
proof (cases "exponentOf m")
  case 0
  have "m < 9007199254740992"
    using exponentOf_bounds[of m] 0 by simp
  with assms show ?thesis by (simp add: roundInt_small)
next
  case (Suc k)
  define e where "e = exponentOf m"
  define q where "q = m div 2 ^ e"
  have b: "4503599627370496 \<le> q" "q < 9007199254740992"
    using exponentOf_bounds[of m] Suc unfolding q_def e_def by simp_all
  have r: "roundInt m = q * 2 ^ e \<or> roundInt m = (q + 1) * 2 ^ e"
    unfolding roundInt_def Let_def e_def[symmetric] q_def[symmetric] by simp
  show ?thesis
  proof (cases "q + 1 < 9007199254740992")
    case True
    have "4503599627370496 \<le> q + 1" using b by simp
    with True b r show ?thesis by blast
  next
    case False
    with b have q1: "q + 1 = 9007199254740992" by simp
    have "(q + 1) * 2 ^ e = 4503599627370496 * 2 ^ Suc e" unfolding q1 by simp
    with r b have "roundInt m = q * 2 ^ e \<or> roundInt m = 4503599627370496 * 2 ^ Suc e"
      by simp
    moreover have "(4503599627370496::int) \<le> 4503599627370496"
      "(4503599627370496::int) < 9007199254740992" by simp_all
    ultimately show ?thesis using b by blast
  qed
qed

lemma roundInt_nonneg: "0 \<le> m \<Longrightarrow> 0 \<le> roundInt m"
  using roundInt_cases[of m] by (auto intro: mult_nonneg_nonneg)

lemma roundInt_idem: "0 \<le> m \<Longrightarrow> roundInt (roundInt m) = roundInt m"
  using roundInt_cases[of m] by (auto simp: roundInt_small roundInt_fixed)

lemma toDouble_idem:
  assumes "toDouble n = Fin k"
  shows "toDouble k = Fin k"
proof -
  let ?v = "roundInt \<bar>n\<bar>"
  have nn: "0 \<le> ?v" by (rule roundInt_nonneg) simp
  from assms have fin: "\<not> 2 ^ 1024 \<le> ?v" and k: "k = (if n < 0 then - ?v else ?v)"
    by (auto simp: toDouble_def Let_def split: if_splits)
  have abs: "\<bar>k\<bar> = ?v" unfolding k using nn by simp
  have rv: "roundInt \<bar>k\<bar> = ?v" unfolding abs by (rule roundInt_idem) simp
  have sign: "k < 0 \<longleftrightarrow> n < 0 \<and> ?v \<noteq> 0" unfolding k using nn by auto
  show ?thesis
    unfolding toDouble_def Let_def rv using fin k sign by auto
qed

lemma toDouble_exact:
  assumes "\<bar>n\<bar> \<le> 9007199254740992"
  shows "toDouble n = Fin n"
proof -
  have r: "roundInt \<bar>n\<bar> = \<bar>n\<bar>"
  proof (cases "\<bar>n\<bar> < 9007199254740992")
    case True
    then show ?thesis by (intro roundInt_small) simp_all
  next
    case False
    with assms have "\<bar>n\<bar> = 4503599627370496 * 2 ^ 1" by simp
    moreover have "roundInt (4503599627370496 * 2 ^ 1) = 4503599627370496 * 2 ^ 1"
      by (rule roundInt_fixed) simp_all
    ultimately show ?thesis by simp
  qed
  have "(9007199254740992::int) < 2 ^ 1024" by simp
  with assms have "\<not> 2 ^ 1024 \<le> \<bar>n\<bar>" by linarith
  then show ?thesis unfolding toDouble_def Let_def r by auto
qed

lemma isDouble_toDouble: "isDouble (toDouble n)"
  by (cases "toDouble n") (simp_all add: isDouble_def toDouble_idem)

lemma isDouble_js_mul: "isDouble (js_mul x y)"
  by (cases x; cases y) (simp_all add: isDouble_toDouble, simp_all add: isDouble_def)

lemma isDouble_simps: "isDouble NaN" "isDouble PInf" "isDouble NInf"
  "\<bar>n\<bar> \<le> 9007199254740992 \<Longrightarrow> isDouble (Fin n)"
  by (simp_all add: isDouble_def toDouble_exact)

lemma js_add_zero: "isDouble x \<Longrightarrow> js_add (Fin 0) x = x"
  by (cases x) (simp_all add: isDouble_def)

section \<open>Segment values\<close>

subsection \<open>\<^verbatim>\<open>parseInt\<close> on decimal numerals and on strings without digits\<close>

lemma digitValue_digit: "(d::nat) < 10 \<Longrightarrow> digitValue (char_of (48 + d)) = Some d"
  by (simp add: digitValue_def Let_def)

lemma decDigit_char_of: "(d::nat) < 10 \<Longrightarrow> decDigit (char_of (48 + d))"
  by (simp add: decDigit_def)

lemma radixDigit_10: "radixDigit 10 c \<longleftrightarrow> decDigit c"
  by (auto simp: decDigit_def radixDigit_def digitValue_def Let_def)

lemma decDigit_facts:
  assumes "decDigit c"
  shows "\<not> StrWhiteSpaceChar c" and "c \<noteq> CHR ''-''" and "c \<noteq> CHR ''+''"
    and "c \<noteq> CHR ''x''" and "c \<noteq> CHR ''X''" and "c \<noteq> CHR ''u''"
  using assms by (auto simp: StrWhiteSpaceChar_def decDigit_def)

lemma decimal_digits: "c \<in> set (decimal n) \<Longrightarrow> decDigit c"
proof (induction n rule: decimal.induct)
  case (1 n)
  show ?case
  proof (cases "n < 10")
    case True
    with 1(2) show ?thesis
      by (subst (asm) decimal.simps) (simp add: decDigit_char_of)
  next
    case False
    have "decDigit (char_of (48 + n mod 10))"
      by (rule decDigit_char_of) simp
    with False 1 show ?thesis
      by (subst (asm) (2) decimal.simps) auto
  qed
qed

lemma decimal_nonempty: "decimal n \<noteq> []"
  by (subst decimal.simps) simp

lemma mathInt_snoc:
  "mathInt R (Z @ [c]) =
     (case digitValue c of None \<Rightarrow> mathInt R Z | Some d \<Rightarrow> mathInt R Z * int R + int d)"
  by (simp add: mathInt_def split: option.splits)

lemma mathInt_decimal: "mathInt 10 (decimal n) = int n"
proof (induction n rule: decimal.induct)
  case (1 n)
  show ?case
  proof (cases "n < 10")
    case True
    then show ?thesis
      by (subst decimal.simps) (simp add: mathInt_def digitValue_digit)
  next
    case False
    have "n mod 10 < 10" by simp
    then have "digitValue (char_of (48 + n mod 10)) = Some (n mod 10)"
      by (rule digitValue_digit)
    moreover have "int (n div 10) * 10 + int (n mod 10) = int n"
      by (simp add: zdiv_int zmod_int)
    ultimately show ?thesis
      using False 1 by (subst decimal.simps) (simp add: mathInt_snoc)
  qed
qed

lemma parseInt_digits:
  assumes ne: "Z \<noteq> []" and dig: "\<And>c. c \<in> set Z \<Longrightarrow> decDigit c"
  shows "parseInt Z = toDouble (mathInt 10 Z)"
proof -
  obtain c cs where Z: "Z = c # cs" using ne by (cases Z) auto
  have c: "decDigit c" using dig Z by simp
  have d0: "dropWhile StrWhiteSpaceChar Z = Z"
    using decDigit_facts(1)[OF c] Z by simp
  have nopre: "\<not> (2 \<le> length Z \<and> (take 2 Z = ''0x'' \<or> take 2 Z = ''0X''))"
  proof
    assume a: "2 \<le> length Z \<and> (take 2 Z = ''0x'' \<or> take 2 Z = ''0X'')"
    then obtain d ds where cs: "cs = d # ds" using Z by (cases cs) auto
    have "decDigit d" using dig Z cs by simp
    from decDigit_facts(4,5)[OF this] a Z cs show False by simp
  qed
  have tw: "takeWhile (radixDigit 10) Z = Z"
    using dig by (simp add: takeWhile_eq_all_conv radixDigit_10)
  have sg: "(if Z \<noteq> [] \<and> hd Z = CHR ''-'' then - 1 else (1::int)) = 1"
    using decDigit_facts(2)[OF c] Z by simp
  have s1: "(if Z \<noteq> [] \<and> (hd Z = CHR ''+'' \<or> hd Z = CHR ''-'') then tl Z else Z) = Z"
    using decDigit_facts(2,3)[OF c] Z by simp
  have np: "(2 \<le> length Z \<and> (take 2 Z = ''0x'' \<or> take 2 Z = ''0X'')) \<longleftrightarrow> False"
    using nopre by blast
  show ?thesis
    unfolding parseInt_def Let_def d0 sg s1 np if_False tw
    using ne by simp
qed

lemma parseInt_decimal: "parseInt (decimal n) = toDouble (int n)"
  using parseInt_digits[of "decimal n"] decimal_nonempty decimal_digits mathInt_decimal
  by simp

lemma decimal_not_word: "c # decimal n \<noteq> ''Bull''" "c # decimal n \<noteq> ''Outer''"
proof -
  have u: "\<not> decDigit (CHR ''u'')" by (simp add: decDigit_def)
  have "CHR ''u'' \<notin> set (decimal n)" using decimal_digits u by blast
  then show "c # decimal n \<noteq> ''Bull''" "c # decimal n \<noteq> ''Outer''" by auto
qed

lemma getDartValueFromID_code:
  "c # rest \<noteq> ''Bull'' \<Longrightarrow> c # rest \<noteq> ''Outer'' \<Longrightarrow>
     getDartValueFromID (Str (c # rest)) = js_mul (Fin (ringMultiplier c)) (parseInt rest)"
  by (auto simp: getDartValueFromID_def ringMultiplier_def Let_def)

lemma parseInt_nonNumeric:
  assumes "nonNumeric s"
  shows "parseInt s = NaN"
proof -
  define S0 where "S0 = dropWhile StrWhiteSpaceChar s"
  define S1 where
    "S1 = (if S0 \<noteq> [] \<and> (hd S0 = CHR ''+'' \<or> hd S0 = CHR ''-'') then tl S0 else S0)"
  have sub0: "set S0 \<subseteq> set s"
    unfolding S0_def by (meson set_dropWhileD subsetI)
  have "set (tl S0) \<subseteq> set S0" by (cases S0) auto
  then have sub1: "set S1 \<subseteq> set s"
    using sub0 unfolding S1_def by (simp split: if_splits) blast
  have nd: "\<not> decDigit c" if "c \<in> set S1" for c
    using assms sub1 that unfolding nonNumeric_def by blast
  have zero: "decDigit (CHR ''0'')" by (simp add: decDigit_def)
  have np: "(2 \<le> length S1 \<and> (take 2 S1 = ''0x'' \<or> take 2 S1 = ''0X'')) \<longleftrightarrow> False"
  proof -
    { assume a: "2 \<le> length S1 \<and> (take 2 S1 = ''0x'' \<or> take 2 S1 = ''0X'')"
      then obtain x y zs where e: "S1 = x # y # zs"
        by (metis Suc_le_length_iff numeral_2_eq_2)
      from a have "x = CHR ''0''" unfolding e by auto
      moreover have "x \<in> set S1" unfolding e by simp
      ultimately have False using nd zero by blast }
    then show ?thesis by blast
  qed
  have tw: "takeWhile (radixDigit 10) S1 = []"
  proof (cases S1)
    case Nil
    then show ?thesis by simp
  next
    case (Cons x xs)
    then have "x \<in> set S1" by simp
    then have "\<not> radixDigit 10 x" using nd radixDigit_10 by blast
    then show ?thesis unfolding Cons by simp
  qed
  show ?thesis
    unfolding parseInt_def Let_def S0_def[symmetric] S1_def[symmetric] np if_False tw
    by simp
qed

subsection \<open>Claims about \<^verbatim>\<open>getDartValueFromID\<close>\<close>

text \<open>
  \<^bold>\<open>C1.\<close> \<^verbatim>\<open>getDartValueFromID\<close> follows the mapping of the specification:
  \<^verbatim>\<open>"Bull"\<close> is 50, \<^verbatim>\<open>"Outer"\<close> is 25, an empty or absent identifier is 0, and every
  other non-empty identifier is worth the multiplier of its first character (1 for
  \<^verbatim>\<open>s\<close>, 2 for \<^verbatim>\<open>d\<close>, 3 for \<^verbatim>\<open>t\<close>, 1 for any other character) times
  \<^verbatim>\<open>parseInt\<close> of the rest, the product being that of two doubles.  For a code made
  of a ring character and the decimal numeral of \<open>n\<close>, the parsed number is \<open>n\<close> as a
  double, and the value is exactly the multiplier times \<open>n\<close> whenever that product
  is at most \<open>2^53\<close>, as for every number of a dartboard.  In particular
  \<^verbatim>\<open>"t20"\<close> is 60, \<^verbatim>\<open>"d20"\<close> is 40 and \<^verbatim>\<open>"s1"\<close> is 1.  The function is pure and
  deterministic: it is a function of the identifier alone, with no access to the Throw.
\<close>

theorem getDartValueFromID_mapping:
  "getDartValueFromID (Str ''Bull'') = Fin 50
   \<and> getDartValueFromID (Str ''Outer'') = Fin 25
   \<and> getDartValueFromID (Str '''') = Fin 0
   \<and> getDartValueFromID Undefined = Fin 0
   \<and> getDartValueFromID Null = Fin 0
   \<and> (\<forall>c n. ringMultiplier c * int n \<le> 9007199254740992 \<longrightarrow>
         getDartValueFromID (Str (c # decimal n)) = Fin (ringMultiplier c * int n))
   \<and> (\<forall>c rest. c # rest \<noteq> ''Bull'' \<longrightarrow> c # rest \<noteq> ''Outer'' \<longrightarrow>
         getDartValueFromID (Str (c # rest)) = js_mul (Fin (ringMultiplier c)) (parseInt rest))
   \<and> (\<forall>c n. getDartValueFromID (Str (c # decimal n)) =
         js_mul (Fin (ringMultiplier c)) (toDouble (int n)))
   \<and> getDartValueFromID (Str ''t20'') = Fin 60
   \<and> getDartValueFromID (Str ''d20'') = Fin 40
   \<and> getDartValueFromID (Str ''s1'') = Fin 1"
proof -
  have words: "getDartValueFromID (Str ''Bull'') = Fin 50"
    "getDartValueFromID (Str ''Outer'') = Fin 25"
    "getDartValueFromID (Str '''') = Fin 0"
    "getDartValueFromID Undefined = Fin 0"
    "getDartValueFromID Null = Fin 0"
    by (simp_all add: getDartValueFromID_def)
  have rounded: "getDartValueFromID (Str (c # decimal n)) =
      js_mul (Fin (ringMultiplier c)) (toDouble (int n))" for c n
    using getDartValueFromID_code[of c "decimal n"] decimal_not_word[of c n]
      parseInt_decimal[of n]
    by simp
  have codes: "getDartValueFromID (Str (c # decimal n)) = Fin (ringMultiplier c * int n)"
    if b: "ringMultiplier c * int n \<le> 9007199254740992" for c n
  proof -
    have m: "1 \<le> ringMultiplier c" by (simp add: ringMultiplier_def)
    have "int n * 1 \<le> int n * ringMultiplier c"
      by (rule mult_left_mono[OF m]) simp
    with b have n: "\<bar>int n\<bar> \<le> 9007199254740992" by (simp add: mult.commute)
    have "0 \<le> ringMultiplier c * int n" using m by simp
    with b have p: "\<bar>ringMultiplier c * int n\<bar> \<le> 9007199254740992" by simp
    show ?thesis
      unfolding rounded toDouble_exact[OF n] js_mul.simps by (rule toDouble_exact[OF p])
  qed
  have ex: "getDartValueFromID (Str ''t20'') = Fin 60"
    "getDartValueFromID (Str ''d20'') = Fin 40"
    "getDartValueFromID (Str ''s1'') = Fin 1"
    by (simp_all add: getDartValueFromID_def parseInt_def Let_def StrWhiteSpaceChar_def
        radixDigit_def digitValue_def mathInt_def toDouble_exact)
  have gen: "\<forall>c rest. c # rest \<noteq> ''Bull'' \<longrightarrow> c # rest \<noteq> ''Outer'' \<longrightarrow>
         getDartValueFromID (Str (c # rest)) = js_mul (Fin (ringMultiplier c)) (parseInt rest)"
    using getDartValueFromID_code by blast
  have codes': "\<forall>c n. ringMultiplier c * int n \<le> 9007199254740992 \<longrightarrow>
         getDartValueFromID (Str (c # decimal n)) = Fin (ringMultiplier c * int n)"
    using codes by blast
  have rounded': "\<forall>c n. getDartValueFromID (Str (c # decimal n)) =
         js_mul (Fin (ringMultiplier c)) (toDouble (int n))"
    using rounded by blast
  show ?thesis
    by (intro conjI) (rule words ex gen codes' rounded')+
qed

theorem getDartValueFromID_mapping_witness:
  "''x20'' \<noteq> ''Bull'' \<and> ''x20'' \<noteq> ''Outer''
   \<and> getDartValueFromID (Str ''x20'') = js_mul (Fin (ringMultiplier (CHR ''x''))) (parseInt ''20'')
   \<and> ringMultiplier (CHR ''t'') * int 20 \<le> 9007199254740992
   \<and> getDartValueFromID (Str (CHR ''t'' # decimal 20)) = Fin 60"
proof -
  note codes = getDartValueFromID_mapping [THEN conjunct2, THEN conjunct2, THEN conjunct2,
      THEN conjunct2, THEN conjunct2, THEN conjunct1, rule_format]
  note gen = getDartValueFromID_mapping [THEN conjunct2, THEN conjunct2, THEN conjunct2,
      THEN conjunct2, THEN conjunct2, THEN conjunct2, THEN conjunct1, rule_format]
  have a: "CHR ''x'' # ''20'' \<noteq> ''Bull''" and b: "CHR ''x'' # ''20'' \<noteq> ''Outer''"
    by simp_all
  have h: "ringMultiplier (CHR ''t'') * int 20 \<le> 9007199254740992"
    by (simp add: ringMultiplier_def)
  have v: "ringMultiplier (CHR ''t'') * int 20 = 60" by (simp add: ringMultiplier_def)
  from gen [OF a b] codes [OF h] a b h show ?thesis unfolding v by simp
qed

text \<open>
  \<^bold>\<open>C2\<close>, as the specification states it: a non-empty identifier other than
  \<^verbatim>\<open>"Bull"\<close> and \<^verbatim>\<open>"Outer"\<close> whose suffix is non-numeric would be worth 0.  The code
  gives NaN at \<^verbatim>\<open>"sx"\<close>: \<^verbatim>\<open>parseInt("x")\<close> is NaN and so is its product with the
  multiplier.
\<close>

theorem nonNumeric_value_counterexample:
  "''sx'' \<noteq> [] \<and> ''sx'' \<noteq> ''Bull'' \<and> ''sx'' \<noteq> ''Outer'' \<and> nonNumeric ''x''
   \<and> getDartValueFromID (Str ''sx'') \<noteq> Fin 0"
  by (simp add: getDartValueFromID_def parseInt_def Let_def StrWhiteSpaceChar_def
      radixDigit_def digitValue_def nonNumeric_def decDigit_def)

text \<open>
  \<^bold>\<open>C2\<close>, amended: for every non-empty identifier that is not \<^verbatim>\<open>"Bull"\<close> or
  \<^verbatim>\<open>"Outer"\<close> and whose suffix after the first character is non-numeric (contains no
  decimal digit), \<^verbatim>\<open>getDartValueFromID\<close> returns NaN.
\<close>

theorem nonNumeric_value_NaN:
  "c # rest \<noteq> ''Bull'' \<Longrightarrow> c # rest \<noteq> ''Outer'' \<Longrightarrow> nonNumeric rest \<Longrightarrow>
     getDartValueFromID (Str (c # rest)) = NaN"
  by (simp add: getDartValueFromID_code parseInt_nonNumeric)

theorem nonNumeric_value_NaN_witness:
  "''sx'' \<noteq> ''Bull'' \<and> ''sx'' \<noteq> ''Outer'' \<and> nonNumeric ''x''
   \<and> getDartValueFromID (Str ''sx'') = NaN"
proof -
  have h: "nonNumeric ''x''" by (simp add: nonNumeric_def decDigit_def)
  have a: "CHR ''s'' # ''x'' \<noteq> ''Bull''" and b: "CHR ''s'' # ''x'' \<noteq> ''Outer''" by simp_all
  from nonNumeric_value_NaN[OF a b h] h show ?thesis by simp
qed

section \<open>Throws\<close>

text \<open>The value of a dart is a double, so adding it to 0 leaves it as it is.\<close>

lemma isDouble_getDartValueFromID: "isDouble (getDartValueFromID i)"
  by (simp add: getDartValueFromID_def Let_def isDouble_js_mul isDouble_simps
      split: ident.splits)

lemma calculateTotal_slotSum: "total (calculateTotal t) = VNum (slotSum t)"
  by (simp add: calculateTotal_def slotSum_def js_add_zero isDouble_getDartValueFromID)

text \<open>The slot that \<^verbatim>\<open>Throw.addDart\<close> writes, and the method in closed form.\<close>

lemma Throw_addDart_eq:
  "snd (Throw_addDart i cs t) =
     t\<lparr>darts := (darts t)
          ((if looseUndefined (darts t ''one'') then ''one''
            else if looseUndefined (darts t ''two'') then ''two''
            else if looseUndefined (darts t ''three'') then ''three'' else '''') := i),
       total := VNum (slotSum (t\<lparr>darts := (darts t)
          ((if looseUndefined (darts t ''one'') then ''one''
            else if looseUndefined (darts t ''two'') then ''two''
            else if looseUndefined (darts t ''three'') then ''three'' else '''') := i)\<rparr>)),
       Throw.currentScore := VNum (js_sub cs (getDartValueFromID i))\<rparr>"
  by (simp add: Throw_addDart_def calculateTotal_def calculateCurrentScore_def
      slotSum_def Let_def js_add_zero isDouble_getDartValueFromID)

lemma Throw_addDart_total:
  "total (snd (Throw_addDart i cs t)) = VNum (slotSum (snd (Throw_addDart i cs t)))"
  by (simp add: Throw_addDart_eq slotSum_def)

lemma Throw_addDart_currentScore:
  "Throw.currentScore (snd (Throw_addDart i cs t)) = VNum (js_sub cs (getDartValueFromID i))"
  by (simp add: Throw_addDart_eq)

lemma Throw_addDart_id: "Throw.id' (snd (Throw_addDart i cs t)) = Throw.id' t"
  by (simp add: Throw_addDart_eq)

lemma calculateCurrentScore_again:
  "calculateCurrentScore cs i (snd (Throw_addDart i cs t)) =
     (js_sub cs (getDartValueFromID i), snd (Throw_addDart i cs t))"
  by (simp add: calculateCurrentScore_def Throw_addDart_eq Let_def)

section \<open>Players and Games\<close>

lemma currentThrow_Some: "throws p \<noteq> [] \<Longrightarrow> currentThrow p = Some (last (throws p))"
  by (simp add: currentThrow_def)

lemma update_last: "xs \<noteq> [] \<Longrightarrow> xs[length xs - Suc 0 := x] = butlast xs @ [x]"
  by (cases xs rule: rev_cases) simp_all

lemma update_last_same: "xs \<noteq> [] \<Longrightarrow> xs[length xs - Suc 0 := last xs] = xs"
  by (simp add: update_last)

lemma throws_set_currentThrow:
  "throws p \<noteq> [] \<Longrightarrow> throws (set_currentThrow t p) = butlast (throws p) @ [t]"
  by (simp add: set_currentThrow_def update_last)

lemma throwsAfter_nonempty: "throwsAfter i p \<noteq> []"
  by (simp add: throwsAfter_def)

lemma last_throwsAfter:
  "last (throwsAfter i p) =
     snd (Throw_addDart i (Player.currentScore p)
       (if isThrowComplete (last (throws p)) then emptyThrow (length (throws p))
        else last (throws p)))"
  by (simp add: throwsAfter_def)

lemma Player_addDart_eq:
  assumes "throws p \<noteq> []"
  shows "Player_addDart i p = Inr (p\<lparr>throws := throwsAfter i p\<rparr>)"
proof (cases "isThrowComplete (last (throws p))")
  case True
  let ?p1 = "p\<lparr>throws := throws p @ [emptyThrow (length (throws p))]\<rparr>"
  have "set_currentThrow t ?p1 = p\<lparr>throws := throws p @ [t]\<rparr>" for t
    by (simp add: set_currentThrow_def)
  with True assms show ?thesis
    by (simp add: Player_addDart_def currentThrow_def throwsAfter_def emptyThrow_def Let_def)
next
  case False
  have "set_currentThrow t p = p\<lparr>throws := butlast (throws p) @ [t]\<rparr>" for t
    using assms by (simp add: set_currentThrow_def update_last)
  with False assms show ?thesis
    by (simp add: Player_addDart_def currentThrow_def throwsAfter_def Let_def)
qed

lemma Game_addDart_eq:
  assumes "throws (player g (currentPlayer g)) \<noteq> []"
  shows "Game_addDart i g =
     Inr (let p' = playerAfter i (player g (currentPlayer g));
              g' = g\<lparr>player := (player g)(currentPlayer g := p')\<rparr>
          in if isThrowComplete (last (throws p')) then switchPlayers g' else g')"
proof -
  let ?p = "player g (currentPlayer g)"
  let ?p1 = "?p\<lparr>throws := throwsAfter i ?p\<rparr>"
  have cs1: "Player.currentScore ?p1 = Player.currentScore ?p" by simp
  have ct1: "currentThrow ?p1 = Some (last (throwsAfter i ?p))"
    by (simp add: currentThrow_def throwsAfter_nonempty)
  have again: "calculateCurrentScore (Player.currentScore ?p) i (last (throwsAfter i ?p)) =
      (js_sub (Player.currentScore ?p) (getDartValueFromID i), last (throwsAfter i ?p))"
    unfolding last_throwsAfter by (rule calculateCurrentScore_again)
  have same: "set_currentThrow (last (throwsAfter i ?p)) ?p1 = ?p1"
    by (simp add: set_currentThrow_def update_last_same throwsAfter_nonempty)
  have p2: "?p1\<lparr>Player.currentScore := js_sub (Player.currentScore ?p) (getDartValueFromID i)\<rparr>
      = playerAfter i ?p"
    by (simp add: playerAfter_def)
  have ct2: "currentThrow (playerAfter i ?p) = Some (last (throws (playerAfter i ?p)))"
    by (simp add: currentThrow_def playerAfter_def throwsAfter_nonempty)
  show ?thesis
    unfolding Game_addDart_def Let_def Player_addDart_eq[OF assms] sum.case cs1 ct1
      option.case again fst_conv snd_conv same p2 ct2
    by simp
qed

lemma inv_new_Game: "inv new_Game"
  by (simp add: inv_def new_Game_def new_Player_def)

lemma Game_addDart_inv:
  assumes "inv g"
  shows "Game_addDart i g =
     Inr (g\<lparr>player := (player g)(currentPlayer g := playerAfter i (player g (currentPlayer g))),
            currentPlayer :=
              (if isThrowComplete (last (throwsAfter i (player g (currentPlayer g))))
               then other (currentPlayer g) else currentPlayer g)\<rparr>)"
proof -
  have ne: "throws (player g (currentPlayer g)) \<noteq> []"
    using assms by (cases "currentPlayer g") (simp_all add: inv_def)
  have ids: "(if Player.id' (player g (currentPlayer g)) = 1 then P_two else P_one)
      = other (currentPlayer g)"
    using assms by (cases "currentPlayer g") (simp_all add: inv_def)
  have idA: "Player.id' (playerAfter i p) = Player.id' p" for p
    by (simp add: playerAfter_def)
  have thA: "throws (playerAfter i p) = throwsAfter i p" for p
    by (simp add: playerAfter_def)
  show ?thesis
    unfolding Game_addDart_eq[OF ne] Let_def
    by (simp add: switchPlayers_def idA thA ids)
qed

lemma inv_step:
  assumes "inv g" and "Game_addDart i g = Inr g'"
  shows "inv g'"
proof -
  have idA: "Player.id' (playerAfter i p) = Player.id' p" for p
    by (simp add: playerAfter_def)
  have thA: "throws (playerAfter i p) \<noteq> []" for p
    by (simp add: playerAfter_def throwsAfter_nonempty)
  from assms(2) have g': "g' = g\<lparr>player := (player g)(currentPlayer g := playerAfter i (player g (currentPlayer g))),
            currentPlayer :=
              (if isThrowComplete (last (throwsAfter i (player g (currentPlayer g))))
               then other (currentPlayer g) else currentPlayer g)\<rparr>"
    unfolding Game_addDart_inv[OF assms(1)] by simp
  show ?thesis
    using assms(1) unfolding g' inv_def
    by (cases "currentPlayer g") (simp_all add: idA thA)
qed

lemma reachable_inv: "reachable g \<Longrightarrow> inv g"
  by (induction rule: reachable.induct) (auto intro: inv_new_Game inv_step)

lemma reachable_addDarts:
  "reachable g \<Longrightarrow> addDarts is g = Inr g' \<Longrightarrow> reachable g'"
proof (induction "is" arbitrary: g)
  case Nil
  then show ?case by simp
next
  case (Cons i "is")
  from Cons.prems(2) obtain g1 where s: "Game_addDart i g = Inr g1" and r: "addDarts is g1 = Inr g'"
    by (auto split: sum.splits)
  from Cons.prems(1) s have "reachable g1" by (rule reachable.step)
  with r show ?case by (rule Cons.IH[rotated])
qed

lemma player_step:
  assumes "inv g" and "Game_addDart i g = Inr g'"
  shows "player g' k = (if k = currentPlayer g then playerAfter i (player g k) else player g k)"
  using assms(2) unfolding Game_addDart_inv[OF assms(1)] by auto

lemma currentPlayer_step:
  assumes "inv g" and "Game_addDart i g = Inr g'"
  shows "currentPlayer g' =
     (if isThrowComplete (last (throwsAfter i (player g (currentPlayer g))))
      then other (currentPlayer g) else currentPlayer g)"
  using assms(2) unfolding Game_addDart_inv[OF assms(1)] by auto

subsection \<open>The array of Throws keeps its shape\<close>

lemma seedThrow_complete: "isThrowComplete seedThrow"
  by (simp add: isThrowComplete_def seedThrow_def new_Throw_def)

lemma new_Player_throws: "throws (new_Player i) = [seedThrow]"
  by (simp add: new_Player_def seedThrow_def)

lemma emptyThrow_id: "Throw.id' (emptyThrow n) = VNum (Fin (int n))"
  by (simp add: emptyThrow_def new_Throw_def)

lemma throwsOK_seed: "throwsOK [seedThrow]"
  by (simp add: throwsOK_def)

lemma throwsOK_after:
  assumes ok: "throwsOK (throws p)"
  shows "throwsOK (throwsAfter i p)"
proof (cases "isThrowComplete (last (throws p))")
  case True
  let ?t = "snd (Throw_addDart i (Player.currentScore p) (emptyThrow (length (throws p))))"
  have ta: "throwsAfter i p = throws p @ [?t]"
    using True by (simp add: throwsAfter_def)
  have t: "total ?t = VNum (slotSum ?t)" "Throw.id' ?t = VNum (Fin (int (length (throws p))))"
    by (simp_all add: Throw_addDart_total Throw_addDart_id emptyThrow_id)
  show ?thesis
    using ok t unfolding ta throwsOK_def
    by (auto simp: nth_append less_Suc_eq)
next
  case False
  let ?t = "snd (Throw_addDart i (Player.currentScore p) (last (throws p)))"
  have ta: "throwsAfter i p = butlast (throws p) @ [?t]"
    using False by (simp add: throwsAfter_def)
  from ok have ne: "throws p \<noteq> []" and hd: "hd (throws p) = seedThrow"
    by (simp_all add: throwsOK_def)
  have "last (throws p) \<noteq> hd (throws p)"
    using False hd seedThrow_complete by auto
  then have len: "2 \<le> length (throws p)"
    using ne by (cases "throws p"; cases "tl (throws p)") auto
  then have bne: "butlast (throws p) \<noteq> []"
    by (cases "throws p" rule: rev_cases) auto
  have idl: "Throw.id' ?t = VNum (Fin (int (length (throws p) - 1)))"
    using ok len by (simp add: Throw_addDart_id last_conv_nth ne throwsOK_def)
  have t: "total ?t = VNum (slotSum ?t)"
    by (rule Throw_addDart_total)
  have hd': "hd (butlast (throws p) @ [?t]) = seedThrow"
    using bne hd ne by (cases "throws p") auto
  have nth: "n < length (throws p) - 1 \<Longrightarrow> butlast (throws p) ! n = throws p ! n" for n
    by (simp add: nth_butlast)
  show ?thesis
    unfolding ta throwsOK_def
  proof (intro conjI allI impI)
    show "butlast (throws p) @ [?t] \<noteq> []" by simp
    show "hd (butlast (throws p) @ [?t]) = seedThrow" by (rule hd')
  next
    fix n assume n: "0 < n \<and> n < length (butlast (throws p) @ [?t])"
    show "total ((butlast (throws p) @ [?t]) ! n) = VNum (slotSum ((butlast (throws p) @ [?t]) ! n))"
    proof (cases "n < length (throws p) - 1")
      case True
      with n ok show ?thesis by (simp add: nth_append nth throwsOK_def)
    next
      case False
      with n t show ?thesis by (simp add: nth_append)
    qed
    show "Throw.id' ((butlast (throws p) @ [?t]) ! n) = VNum (Fin (int n))"
    proof (cases "n < length (throws p) - 1")
      case True
      with n ok show ?thesis by (simp add: nth_append nth throwsOK_def)
    next
      case False
      with n have "n = length (throws p) - 1" by simp
      with False idl show ?thesis by (simp add: nth_append)
    qed
  qed
qed

lemma reachable_throwsOK: "reachable g \<Longrightarrow> throwsOK (throws (player g k))"
proof (induction arbitrary: k rule: reachable.induct)
  case fresh
  show ?case
    by (cases k) (simp_all add: new_Game_def new_Player_def throwsOK_seed [unfolded seedThrow_def])
next
  case (step g i g')
  have "inv g" using step.hyps(1) by (rule reachable_inv)
  from player_step[OF this step.hyps(2)]
  have "throws (player g' k) =
      (if k = currentPlayer g then throwsAfter i (player g k) else throws (player g k))"
    by (simp add: playerAfter_def)
  with step.IH[of k] throwsOK_after[of "player g k" i] show ?case by (simp split: if_splits)
qed

subsection \<open>Evaluating concrete runs\<close>

lemmas value_simps = getDartValueFromID_def parseInt_def Let_def StrWhiteSpaceChar_def
  radixDigit_def digitValue_def mathInt_def toDouble_exact

lemmas run_simps = played_def turnAfter_def Game_addDart_eq new_Game_def new_Player_def
  playerAfter_def throwsAfter_def isThrowComplete_def new_Throw_def Throw_addDart_eq
  emptyThrow_def seedThrow_def slotSum_def switchPlayers_def currentThrow_def

lemma addDarts_total:
  assumes "inv g"
  shows "\<exists>g'. addDarts is g = Inr g' \<and> inv g'"
  using assms
proof (induction "is" arbitrary: g)
  case Nil
  then show ?case by simp
next
  case (Cons i "is")
  from Game_addDart_inv[OF Cons.prems] obtain g1 where s: "Game_addDart i g = Inr g1"
    by blast
  with Cons.prems have "inv g1" by (rule inv_step)
  from Cons.IH[OF this] s show ?case by simp
qed

lemma reachable_played: "reachable (played is)"
proof -
  from addDarts_total[OF inv_new_Game] obtain g where g: "addDarts is new_Game = Inr g"
    by blast
  with reachable.fresh have "reachable g" by (rule reachable_addDarts)
  with g show ?thesis by (simp add: played_def)
qed

section \<open>Claims about Throws\<close>

text \<open>
  \<^bold>\<open>C3\<close>, as the specification states it: every Throw in every reachable state,
  the seed placeholder included, would have its total equal to the sum of the values of
  its three slots.  The placeholder of a fresh Game is built with the string \<^verbatim>\<open>"-"\<close> as
  total, which is no number at all (and the sum of its three \<^verbatim>\<open>"-"\<close> slots is NaN).
\<close>

theorem seed_total_counterexample:
  "reachable new_Game \<and> seedThrow \<in> set (throws (player new_Game P_one))
   \<and> total seedThrow = VStr ''-'' \<and> total seedThrow \<noteq> VNum (slotSum seedThrow)"
proof -
  have "seedThrow \<in> set (throws (player new_Game P_one))"
    by (simp add: new_Game_def new_Player_def seedThrow_def)
  moreover have "total seedThrow = VStr ''-''"
    by (simp add: seedThrow_def new_Throw_def)
  ultimately show ?thesis using reachable.fresh by simp
qed

text \<open>
  \<^bold>\<open>C3\<close>, amended: after every \<^verbatim>\<open>addDart\<close> call on a Throw, its total equals the
  sum of \<^verbatim>\<open>getDartValueFromID\<close> over its three slots, unfilled slots contributing 0;
  and in every state reachable through \<^verbatim>\<open>Game.addDart\<close>, the first Throw of each
  player is the seed placeholder (whose total stays the string \<^verbatim>\<open>"-"\<close>) and every
  other Throw has its total equal to that sum.
\<close>

theorem total_is_slotSum:
  "total (snd (Throw_addDart i cs t0)) = VNum (slotSum (snd (Throw_addDart i cs t0)))
   \<and> (reachable g \<longrightarrow>
        hd (throws (player g k)) = seedThrow \<and>
        (\<forall>t \<in> set (tl (throws (player g k))). total t = VNum (slotSum t)))"
proof (intro conjI impI ballI)
  show "total (snd (Throw_addDart i cs t0)) = VNum (slotSum (snd (Throw_addDart i cs t0)))"
    by (rule Throw_addDart_total)
next
  assume "reachable g"
  then have ok: "throwsOK (throws (player g k))" by (rule reachable_throwsOK)
  then show "hd (throws (player g k)) = seedThrow" by (simp add: throwsOK_def)
  fix t assume "t \<in> set (tl (throws (player g k)))"
  then obtain m where m: "m < length (tl (throws (player g k)))"
    and t: "t = tl (throws (player g k)) ! m"
    by (auto simp: in_set_conv_nth)
  from m have "t = throws (player g k) ! Suc m" unfolding t by (simp add: nth_tl)
  moreover from m have "Suc m < length (throws (player g k))" by simp
  ultimately show "total t = VNum (slotSum t)"
    using ok unfolding throwsOK_def by blast
qed

theorem total_is_slotSum_witness:
  "reachable (played [Str ''t20''])
   \<and> last (throws (player (played [Str ''t20'']) P_one))
        \<in> set (tl (throws (player (played [Str ''t20'']) P_one)))
   \<and> total (last (throws (player (played [Str ''t20'']) P_one))) = VNum (Fin 60)
   \<and> slotSum (last (throws (player (played [Str ''t20'']) P_one))) = Fin 60"
proof -
  have r: "reachable (played [Str ''t20''])" by (rule reachable_played)
  have m: "last (throws (player (played [Str ''t20'']) P_one))
        \<in> set (tl (throws (player (played [Str ''t20'']) P_one)))"
    by (simp add: run_simps)
  have v: "total (last (throws (player (played [Str ''t20'']) P_one))) = VNum (Fin 60)"
    by (simp add: run_simps value_simps)
  from total_is_slotSum[of "Str ''t20''" "Fin 501" seedThrow "played [Str ''t20'']" P_one] r m
  have "total (last (throws (player (played [Str ''t20'']) P_one)))
      = VNum (slotSum (last (throws (player (played [Str ''t20'']) P_one))))"
    by blast
  with r m v show ?thesis by simp
qed

text \<open>
  \<^bold>\<open>C4\<close>, as the specification states it: \<^verbatim>\<open>isThrowComplete()\<close> would be true iff
  exactly three darts have been recorded on the Throw through \<^verbatim>\<open>addDart\<close>, the seed
  placeholder included.  The placeholder of a fresh Game is complete although no dart
  has been recorded on it: its third slot holds \<^verbatim>\<open>"-"\<close> from construction.
\<close>

theorem seed_complete_counterexample:
  "seedThrow \<in> set (throws (player new_Game P_one))
   \<and> isThrowComplete (Throw_addDarts [] seedThrow)
   \<and> length ([] :: (ident \<times> jsnum) list) \<noteq> 3"
  by (simp add: new_Game_def new_Player_def seedThrow_def new_Throw_def isThrowComplete_def)

text \<open>A Throw whose three slots hold strings stays so under \<^verbatim>\<open>addDart\<close>: the
  identifier goes to the property named by the empty string.\<close>

lemma full_darts:
  assumes "isStr (darts t ''one'')" "isStr (darts t ''two'')" "isStr (darts t ''three'')"
  shows "darts (snd (Throw_addDart i cs t)) = (darts t)('''' := i)"
proof -
  from assms obtain a b c where "darts t ''one'' = Str a" "darts t ''two'' = Str b"
    "darts t ''three'' = Str c"
    by (cases "darts t ''one''"; cases "darts t ''two''"; cases "darts t ''three''") simp_all
  then show ?thesis by (simp add: Throw_addDart_eq)
qed

lemma full_stays:
  assumes "isStr (darts t ''one'')" "isStr (darts t ''two'')" "isStr (darts t ''three'')"
  shows "isStr (darts (snd (Throw_addDart i cs t)) ''one'')
    \<and> isStr (darts (snd (Throw_addDart i cs t)) ''two'')
    \<and> isStr (darts (snd (Throw_addDart i cs t)) ''three'')"
  using assms by (simp add: full_darts[OF assms])

lemma full_addDarts:
  "isStr (darts t ''one'') \<Longrightarrow> isStr (darts t ''two'') \<Longrightarrow> isStr (darts t ''three'') \<Longrightarrow>
     isStr (darts (Throw_addDarts ds t) ''three'')"
proof (induction ds arbitrary: t)
  case Nil
  then show ?case by simp
next
  case (Cons d ds)
  from full_stays[OF Cons.prems, of "fst d" "snd d"] Cons.IH show ?case by simp
qed

lemma isStr_complete: "isStr (darts t ''three'') \<Longrightarrow> isThrowComplete t"
  by (cases "darts t ''three''") (simp_all add: isThrowComplete_def)

lemma first_three_darts:
  fixes a b c :: ident and x y z :: jsnum and n tot cs0
  defines "t0 \<equiv> new_Throw n Undefined Undefined Undefined tot cs0"
  assumes "isStr a" "isStr b" "isStr c"
  shows "\<not> isThrowComplete t0"
    and "\<not> isThrowComplete (snd (Throw_addDart a x t0))"
    and "\<not> isThrowComplete (snd (Throw_addDart b y (snd (Throw_addDart a x t0))))"
    and "isStr (darts (snd (Throw_addDart c z (snd (Throw_addDart b y
           (snd (Throw_addDart a x t0)))))) ''one'')"
    and "isStr (darts (snd (Throw_addDart c z (snd (Throw_addDart b y
           (snd (Throw_addDart a x t0)))))) ''two'')"
    and "isStr (darts (snd (Throw_addDart c z (snd (Throw_addDart b y
           (snd (Throw_addDart a x t0)))))) ''three'')"
proof -
  let ?t1 = "snd (Throw_addDart a x t0)"
  let ?t2 = "snd (Throw_addDart b y ?t1)"
  let ?t3 = "snd (Throw_addDart c z ?t2)"
  from assms(2-4) obtain sa sb sc where s: "a = Str sa" "b = Str sb" "c = Str sc"
    by (cases a; cases b; cases c) simp_all
  have d0: "darts t0 = (\<lambda>k. Undefined)"
    unfolding t0_def by (auto simp: new_Throw_def)
  have step1: "darts (snd (Throw_addDart i cs t)) = (\<lambda>k. Undefined)(''one'' := i)"
    if "darts t = (\<lambda>k. Undefined)" for i cs t
    using that by (simp add: Throw_addDart_eq)
  have step2: "darts (snd (Throw_addDart i cs t)) = (\<lambda>k. Undefined)(''one'' := a, ''two'' := i)"
    if "darts t = (\<lambda>k. Undefined)(''one'' := a)" for i cs t
    using that by (simp add: Throw_addDart_eq s)
  have step3: "darts (snd (Throw_addDart i cs t)) =
      (\<lambda>k. Undefined)(''one'' := a, ''two'' := b, ''three'' := i)"
    if "darts t = (\<lambda>k. Undefined)(''one'' := a, ''two'' := b)" for i cs t
    using that by (simp add: Throw_addDart_eq s)
  have d1: "darts ?t1 = (\<lambda>k. Undefined)(''one'' := a)"
    by (rule step1[OF d0])
  have d2: "darts ?t2 = (\<lambda>k. Undefined)(''one'' := a, ''two'' := b)"
    by (rule step2[OF d1])
  have d3: "darts ?t3 = (\<lambda>k. Undefined)(''one'' := a, ''two'' := b, ''three'' := c)"
    by (rule step3[OF d2])
  show "\<not> isThrowComplete t0" "\<not> isThrowComplete ?t1" "\<not> isThrowComplete ?t2"
    unfolding isThrowComplete_def d0 d1 d2 by simp_all
  show "isStr (darts ?t3 ''one'')" "isStr (darts ?t3 ''two'')" "isStr (darts ?t3 ''three'')"
    unfolding d3 by (simp_all add: s)
qed

text \<open>
  \<^bold>\<open>C4\<close>, amended: on a Throw that starts with its three slots empty (as
  \<^verbatim>\<open>new Throw(n)\<close> in \<^verbatim>\<open>Player.addDart\<close> builds it) and receives string identifiers,
  \<^verbatim>\<open>isThrowComplete()\<close> is true iff at least three darts have been recorded on it
  through \<^verbatim>\<open>addDart\<close>: it is false after no, one and two calls, flips to true on the
  third call and stays true.  (The seed placeholder is complete from construction, and an
  absent identifier fills no slot.)
\<close>

theorem isThrowComplete_after_darts:
  assumes "\<forall>d \<in> set ds. isStr (fst d)"
  shows "isThrowComplete (Throw_addDarts ds (new_Throw n Undefined Undefined Undefined tot cs))
     \<longleftrightarrow> 3 \<le> length ds"
proof -
  let ?t0 = "new_Throw n Undefined Undefined Undefined tot cs"
  consider "ds = []" | d1 where "ds = [d1]" | d1 d2 where "ds = [d1, d2]"
    | d1 d2 d3 rest where "ds = d1 # d2 # d3 # rest"
    by (cases ds; cases "tl ds"; cases "tl (tl ds)") auto
  then show ?thesis
  proof cases
    case 1
    have "\<not> isThrowComplete ?t0"
      by (simp add: isThrowComplete_def new_Throw_def)
    with 1 show ?thesis by simp
  next
    case 2
    with assms have s: "isStr (fst d1)" by simp
    from first_three_darts(2)[OF s s s, where n=n and tot=tot and ?cs0.0=cs and x="snd d1"] 2 show ?thesis by simp
  next
    case 3
    with assms have s: "isStr (fst d1)" "isStr (fst d2)" by simp_all
    from first_three_darts(3)[OF s s(2), where n=n and tot=tot and ?cs0.0=cs
        and x="snd d1" and y="snd d2"] 3
    show ?thesis by simp
  next
    case 4
    with assms have s: "isStr (fst d1)" "isStr (fst d2)" "isStr (fst d3)" by simp_all
    note full = first_three_darts(4-6)[OF s, where n=n and tot=tot and ?cs0.0=cs
        and x="snd d1" and y="snd d2" and z="snd d3"]
    have "isStr (darts (Throw_addDarts rest
        (snd (Throw_addDart (fst d3) (snd d3) (snd (Throw_addDart (fst d2) (snd d2)
          (snd (Throw_addDart (fst d1) (snd d1) ?t0))))))) ''three'')"
      by (rule full_addDarts[OF full])
    then show ?thesis unfolding 4 by (simp add: isStr_complete)
  qed
qed

theorem isThrowComplete_after_darts_witness:
  "isStr (Str ''t20'') \<and> isStr (Str ''s1'') \<and> isStr (Str '''')
   \<and> \<not> isThrowComplete (Throw_addDarts [(Str ''t20'', Fin 501), (Str ''s1'', Fin 441)]
        (new_Throw (VNum (Fin 1)) Undefined Undefined Undefined VUndefined VUndefined))
   \<and> isThrowComplete
        (Throw_addDarts [(Str ''t20'', Fin 501), (Str ''s1'', Fin 441), (Str '''', Fin 440)]
          (new_Throw (VNum (Fin 1)) Undefined Undefined Undefined VUndefined VUndefined))"
proof -
  have h2: "\<forall>d \<in> set [(Str ''t20'', Fin 501), (Str ''s1'', Fin 441)]. isStr (fst d)"
    by simp
  have h3: "\<forall>d \<in> set [(Str ''t20'', Fin 501), (Str ''s1'', Fin 441), (Str '''', Fin 440)].
      isStr (fst d)"
    by simp
  from isThrowComplete_after_darts[OF h2, of "VNum (Fin 1)" VUndefined VUndefined]
    isThrowComplete_after_darts[OF h3, of "VNum (Fin 1)" VUndefined VUndefined]
  show ?thesis by simp
qed

text \<open>
  \<^bold>\<open>C9\<close>, as stated: on a Throw whose three slots are filled,
  \<^verbatim>\<open>Throw.addDart(id, score)\<close> would set and return the score minus the value of the
  dart.  The method sets that value but has no \<^verbatim>\<open>return\<close> statement: its result is
  \<^verbatim>\<open>undefined\<close>.
\<close>

theorem addDart_returns_undefined_counterexample:
  "isThrowComplete
     (new_Throw (VNum (Fin 1)) (Str ''t20'') (Str ''t20'') (Str ''t20'') (VNum (Fin 180))
        (VNum (Fin 321)))
   \<and> fst (Throw_addDart (Str ''s1'') (Fin 321)
        (new_Throw (VNum (Fin 1)) (Str ''t20'') (Str ''t20'') (Str ''t20'') (VNum (Fin 180))
           (VNum (Fin 321))))
      \<noteq> VNum (js_sub (Fin 321) (getDartValueFromID (Str ''s1'')))"
  by (simp add: isThrowComplete_def new_Throw_def Throw_addDart_def Let_def)

text \<open>
  \<^bold>\<open>C9\<close>, amended: for every Throw whose three slots one, two, three all hold a
  string (so that \<^verbatim>\<open>isThrowComplete()\<close> is true), \<^verbatim>\<open>Throw.addDart(id, score)\<close> leaves
  the three slots and the recomputed total unchanged, stores the identifier under the
  property named by the empty string, and sets \<^verbatim>\<open>currentScore\<close> to the score minus the
  value of the dart; the method itself returns \<^verbatim>\<open>undefined\<close>.
\<close>

theorem addDart_on_full_Throw:
  assumes "isStr (darts t ''one'')" "isStr (darts t ''two'')" "isStr (darts t ''three'')"
  shows "isThrowComplete t
   \<and> darts (snd (Throw_addDart i cs t)) = (darts t)('''' := i)
   \<and> darts (snd (Throw_addDart i cs t)) ''one'' = darts t ''one''
   \<and> darts (snd (Throw_addDart i cs t)) ''two'' = darts t ''two''
   \<and> darts (snd (Throw_addDart i cs t)) ''three'' = darts t ''three''
   \<and> total (snd (Throw_addDart i cs t)) = total (calculateTotal t)
   \<and> total (snd (Throw_addDart i cs t)) = VNum (slotSum t)
   \<and> Throw.currentScore (snd (Throw_addDart i cs t)) = VNum (js_sub cs (getDartValueFromID i))
   \<and> fst (Throw_addDart i cs t) = VUndefined"
proof -
  have d: "darts (snd (Throw_addDart i cs t)) = (darts t)('''' := i)"
    by (rule full_darts[OF assms])
  have tot: "total (snd (Throw_addDart i cs t)) = VNum (slotSum t)"
    unfolding Throw_addDart_total by (simp add: slotSum_def d)
  have ct: "total (calculateTotal t) = VNum (slotSum t)"
    by (rule calculateTotal_slotSum)
  show ?thesis
    using isStr_complete[OF assms(3)] tot ct
    by (simp add: d Throw_addDart_currentScore) (simp add: Throw_addDart_def Let_def)
qed

theorem addDart_on_full_Throw_witness:
  "isStr (darts seedThrow ''one'') \<and> isStr (darts seedThrow ''two'')
   \<and> isStr (darts seedThrow ''three'')
   \<and> darts (snd (Throw_addDart (Str ''t20'') (Fin 501) seedThrow)) ''three'' = Str ''-''
   \<and> darts (snd (Throw_addDart (Str ''t20'') (Fin 501) seedThrow)) '''' = Str ''t20''
   \<and> Throw.currentScore (snd (Throw_addDart (Str ''t20'') (Fin 501) seedThrow)) = VNum (Fin 441)
   \<and> total (snd (Throw_addDart (Str ''t20'') (Fin 501) seedThrow)) = VNum NaN"
proof -
  have h: "isStr (darts seedThrow ''one'')" "isStr (darts seedThrow ''two'')"
    "isStr (darts seedThrow ''three'')"
    by (simp_all add: seedThrow_def new_Throw_def)
  have v: "getDartValueFromID (Str ''t20'') = Fin 60" by (simp add: value_simps)
  have s: "slotSum seedThrow = NaN"
    by (simp add: slotSum_def seedThrow_def new_Throw_def value_simps)
  have three: "darts seedThrow ''three'' = Str ''-''"
    by (simp add: seedThrow_def new_Throw_def)
  have ct: "total (calculateTotal seedThrow) = VNum NaN"
    by (simp add: calculateTotal_def seedThrow_def new_Throw_def value_simps)
  from addDart_on_full_Throw[OF h, of "Str ''t20''" "Fin 501"] h v s three ct
  show ?thesis by (simp add: toDouble_exact)
qed

section \<open>Claims about Players and Games\<close>

text \<open>
  \<^bold>\<open>C5.\<close> On every Player (the array of Throws of a Player is never empty: the
  constructor seeds it and nothing removes an element), \<^verbatim>\<open>Player.addDart\<close> makes the
  array one longer when the current (last) Throw is complete, the appended Throw having
  the former length as its index, and leaves the length unchanged when the current
  Throw is incomplete; in both cases the current Throw then receives \<^verbatim>\<open>addDart\<close> with
  the identifier and the Player's current score, and nothing else of the Player
  changes.  In every reachable state the Throw at position \<open>n > 0\<close> has index \<open>n\<close>,
  so the indices increase along the array.
\<close>

theorem Player_addDart_length:
  assumes "throws p \<noteq> []"
  shows "\<exists>p'. Player_addDart i p = Inr p'
     \<and> Player.currentScore p' = Player.currentScore p \<and> Player.id' p' = Player.id' p
     \<and> (isThrowComplete (last (throws p)) \<longrightarrow>
          length (throws p') = length (throws p) + 1
          \<and> butlast (throws p') = throws p
          \<and> last (throws p') =
              snd (Throw_addDart i (Player.currentScore p)
                (new_Throw (VNum (Fin (int (length (throws p)))))
                   Undefined Undefined Undefined VUndefined VUndefined))
          \<and> Throw.id' (last (throws p')) = VNum (Fin (int (length (throws p)))))
     \<and> (\<not> isThrowComplete (last (throws p)) \<longrightarrow>
          length (throws p') = length (throws p)
          \<and> butlast (throws p') = butlast (throws p)
          \<and> last (throws p') = snd (Throw_addDart i (Player.currentScore p) (last (throws p))))
     \<and> (reachable g \<longrightarrow>
          (\<forall>n. 0 < n \<and> n < length (throws (player g k)) \<longrightarrow>
             Throw.id' (throws (player g k) ! n) = VNum (Fin (int n))))"
proof -
  let ?p' = "p\<lparr>throws := throwsAfter i p\<rparr>"
  have e: "Player_addDart i p = Inr ?p'" by (rule Player_addDart_eq[OF assms])
  have c: "isThrowComplete (last (throws p)) \<longrightarrow>
          length (throws ?p') = length (throws p) + 1
          \<and> butlast (throws ?p') = throws p
          \<and> last (throws ?p') =
              snd (Throw_addDart i (Player.currentScore p)
                (new_Throw (VNum (Fin (int (length (throws p)))))
                   Undefined Undefined Undefined VUndefined VUndefined))
          \<and> Throw.id' (last (throws ?p')) = VNum (Fin (int (length (throws p))))"
    by (simp add: throwsAfter_def Throw_addDart_id emptyThrow_id)
      (simp add: emptyThrow_def)
  have n: "\<not> isThrowComplete (last (throws p)) \<longrightarrow>
          length (throws ?p') = length (throws p)
          \<and> butlast (throws ?p') = butlast (throws p)
          \<and> last (throws ?p') = snd (Throw_addDart i (Player.currentScore p) (last (throws p)))"
    using assms by (simp add: throwsAfter_def)
  have r: "reachable g \<longrightarrow>
          (\<forall>n. 0 < n \<and> n < length (throws (player g k)) \<longrightarrow>
             Throw.id' (throws (player g k) ! n) = VNum (Fin (int n)))"
    using reachable_throwsOK[of g k] by (simp add: throwsOK_def)
  have s: "Player.currentScore ?p' = Player.currentScore p \<and> Player.id' ?p' = Player.id' p"
    by simp
  from e s c n r show ?thesis by blast
qed

theorem Player_addDart_length_witness:
  "throws (new_Player 1) \<noteq> [] \<and> isThrowComplete (last (throws (new_Player 1)))
   \<and> (\<exists>p'. Player_addDart (Str ''t20'') (new_Player 1) = Inr p'
         \<and> length (throws p') = 2
         \<and> Throw.id' (last (throws p')) = VNum (Fin 1)
         \<and> darts (last (throws p')) ''one'' = Str ''t20'')"
proof -
  have h: "throws (new_Player 1) \<noteq> []" by (simp add: new_Player_def)
  have c: "isThrowComplete (last (throws (new_Player 1)))"
    by (simp add: new_Player_def isThrowComplete_def new_Throw_def)
  have l: "length (throws (new_Player 1)) = 1" by (simp add: new_Player_def)
  have d: "darts (snd (Throw_addDart (Str ''t20'') cs
      (new_Throw n Undefined Undefined Undefined VUndefined VUndefined))) ''one'' = Str ''t20''"
    for cs n
    by (simp add: Throw_addDart_eq new_Throw_def)
  from Player_addDart_length[OF h, of "Str ''t20''" new_Game P_one]
  obtain p' where "Player_addDart (Str ''t20'') (new_Player 1) = Inr p'"
    and "length (throws p') = length (throws (new_Player 1)) + 1"
    and "last (throws p') =
              snd (Throw_addDart (Str ''t20'') (Player.currentScore (new_Player 1))
                (new_Throw (VNum (Fin (int (length (throws (new_Player 1))))))
                   Undefined Undefined Undefined VUndefined VUndefined))"
    and "Throw.id' (last (throws p')) = VNum (Fin (int (length (throws (new_Player 1)))))"
    using c by blast
  with h c l d show ?thesis by simp
qed

lemma Game_addDart_facts:
  assumes "inv g"
  obtains g' where "Game_addDart i g = Inr g'" and "inv g'"
    and "currentPlayer g' =
      (if isThrowComplete (last (throwsAfter i (player g (currentPlayer g))))
       then other (currentPlayer g) else currentPlayer g)"
    and "player g' (currentPlayer g) = playerAfter i (player g (currentPlayer g))"
    and "\<And>k. k \<noteq> currentPlayer g \<Longrightarrow> player g' k = player g k"
proof -
  from Game_addDart_inv[OF assms] obtain g' where s: "Game_addDart i g = Inr g'" by blast
  show ?thesis
  proof (rule that[OF s])
    show "inv g'" using assms s by (rule inv_step)
    show "currentPlayer g' =
      (if isThrowComplete (last (throwsAfter i (player g (currentPlayer g))))
       then other (currentPlayer g) else currentPlayer g)"
      using assms s by (rule currentPlayer_step)
    show "player g' (currentPlayer g) = playerAfter i (player g (currentPlayer g))"
      using player_step[OF assms s, of "currentPlayer g"] by simp
    show "player g' k = player g k" if "k \<noteq> currentPlayer g" for k
      using player_step[OF assms s, of k] that by simp
  qed
qed

text \<open>
  \<^bold>\<open>C6\<close>, as the specification states it: from a state in which the current
  player's current Throw is complete, such as a fresh Game, three consecutive
  \<^verbatim>\<open>Game.addDart\<close> calls would toggle the current player.  With an absent identifier
  (which the specification counts as a valid miss) no slot is ever filled:
  \<^verbatim>\<open>this.darts.one = undefined\<close> leaves slot one unfilled, so after three such calls it
  is still the first player's turn.
\<close>

theorem absent_darts_turn_counterexample:
  "reachable new_Game
   \<and> isThrowComplete (last (throws (player new_Game (currentPlayer new_Game))))
   \<and> turnAfter [Undefined, Undefined, Undefined] new_Game = Inr (currentPlayer new_Game)"
proof -
  have c: "isThrowComplete (last (throws (player new_Game (currentPlayer new_Game))))"
    by (simp add: run_simps)
  have t: "turnAfter [Undefined, Undefined, Undefined] new_Game = Inr (currentPlayer new_Game)"
    by (simp add: run_simps getDartValueFromID_def)
  from reachable.fresh c t show ?thesis by simp
qed

text \<open>
  \<^bold>\<open>C6\<close>, amended: starting from any reachable Game state in which the current
  player's current Throw is complete (a fresh Game is one), after three consecutive
  \<^verbatim>\<open>Game.addDart\<close> calls whose identifiers are strings the current player has toggled
  exactly once (it is the other player), and after one or two such calls it has not
  toggled.
\<close>

theorem turn_toggles_on_third_dart:
  assumes "reachable g"
    and "isThrowComplete (last (throws (player g (currentPlayer g))))"
    and "isStr a" "isStr b" "isStr c"
  shows "\<exists>g1 g2 g3. Game_addDart a g = Inr g1 \<and> Game_addDart b g1 = Inr g2
     \<and> Game_addDart c g2 = Inr g3
     \<and> currentPlayer g1 = currentPlayer g \<and> currentPlayer g2 = currentPlayer g
     \<and> currentPlayer g3 = other (currentPlayer g) \<and> other (currentPlayer g) \<noteq> currentPlayer g"
proof -
  let ?k = "currentPlayer g"
  let ?p = "player g ?k"
  let ?t0 = "new_Throw (VNum (Fin (int (length (throws ?p))))) Undefined Undefined Undefined
      VUndefined VUndefined"
  let ?t1 = "snd (Throw_addDart a (Player.currentScore ?p) ?t0)"
  note f = first_three_darts[OF assms(3-5), where n="VNum (Fin (int (length (throws ?p))))"
      and tot=VUndefined and ?cs0.0=VUndefined]
  have i0: "inv g" using assms(1) by (rule reachable_inv)
  from Game_addDart_facts[OF i0, of a] obtain g1 where
    s1: "Game_addDart a g = Inr g1" and i1: "inv g1"
    and c1: "currentPlayer g1 =
      (if isThrowComplete (last (throwsAfter a ?p)) then other ?k else ?k)"
    and p1: "player g1 ?k = playerAfter a ?p"
    by blast
  have l1: "last (throwsAfter a ?p) = ?t1"
    using assms(2) by (simp add: last_throwsAfter emptyThrow_def)
  have n1: "\<not> isThrowComplete ?t1" by (rule f(2))
  have k1: "currentPlayer g1 = ?k" using c1 l1 n1 by simp
  let ?p1 = "player g1 (currentPlayer g1)"
  have lp1: "last (throws ?p1) = ?t1"
    unfolding k1 p1 using l1 by (simp add: playerAfter_def)
  let ?t2 = "snd (Throw_addDart b (Player.currentScore ?p1) ?t1)"
  from Game_addDart_facts[OF i1, of b] obtain g2 where
    s2: "Game_addDart b g1 = Inr g2" and i2: "inv g2"
    and c2: "currentPlayer g2 =
      (if isThrowComplete (last (throwsAfter b ?p1)) then other (currentPlayer g1)
       else currentPlayer g1)"
    and p2: "player g2 (currentPlayer g1) = playerAfter b ?p1"
    by blast
  have l2: "last (throwsAfter b ?p1) = ?t2"
    using n1 lp1 by (simp add: last_throwsAfter)
  have n2: "\<not> isThrowComplete ?t2" by (rule f(3))
  have k2: "currentPlayer g2 = ?k" using c2 l2 n2 k1 by simp
  let ?p2 = "player g2 (currentPlayer g2)"
  have lp2: "last (throws ?p2) = ?t2"
    using p2 l2 k1 k2 by (simp add: playerAfter_def)
  let ?t3 = "snd (Throw_addDart c (Player.currentScore ?p2) ?t2)"
  from Game_addDart_facts[OF i2, of c] obtain g3 where
    s3: "Game_addDart c g2 = Inr g3"
    and c3: "currentPlayer g3 =
      (if isThrowComplete (last (throwsAfter c ?p2)) then other (currentPlayer g2)
       else currentPlayer g2)"
    by blast
  have l3: "last (throwsAfter c ?p2) = ?t3"
    using n2 lp2 by (simp add: last_throwsAfter)
  have "isThrowComplete ?t3" by (rule isStr_complete[OF f(6)])
  then have k3: "currentPlayer g3 = other ?k" using c3 l3 k2 by simp
  have "other ?k \<noteq> ?k" by (cases ?k) simp_all
  with s1 s2 s3 k1 k2 k3 show ?thesis by blast
qed

theorem turn_toggles_on_third_dart_witness:
  "reachable new_Game
   \<and> isThrowComplete (last (throws (player new_Game (currentPlayer new_Game))))
   \<and> isStr (Str ''t20'') \<and> isStr (Str ''s1'') \<and> isStr (Str '''')
   \<and> turnAfter [Str ''t20''] new_Game = Inr P_one
   \<and> turnAfter [Str ''t20'', Str ''s1''] new_Game = Inr P_one
   \<and> turnAfter [Str ''t20'', Str ''s1'', Str ''''] new_Game = Inr P_two"
proof -
  have c: "isThrowComplete (last (throws (player new_Game (currentPlayer new_Game))))"
    by (simp add: run_simps)
  have k: "currentPlayer new_Game = P_one" by (simp add: new_Game_def)
  from turn_toggles_on_third_dart[OF reachable.fresh c, of "Str ''t20''" "Str ''s1''" "Str ''''"]
  obtain g1 g2 g3 where "Game_addDart (Str ''t20'') new_Game = Inr g1"
    "Game_addDart (Str ''s1'') g1 = Inr g2" "Game_addDart (Str '''') g2 = Inr g3"
    "currentPlayer g1 = P_one" "currentPlayer g2 = P_one" "currentPlayer g3 = P_two"
    unfolding k by auto
  then show ?thesis using reachable.fresh c by (simp add: turnAfter_def)
qed

text \<open>
  \<^bold>\<open>C7.\<close> On a fresh Game, three calls \<^verbatim>\<open>Game.addDart("t20")\<close> take Player 1's
  score from 501 through 441 and 381 to 321, leave Player 1's current Throw with total
  180, and end with Player 2 as the current player (who was not before).
\<close>

theorem three_treble_twenties:
  "Player.currentScore (player new_Game P_one) = Fin 501 \<and> currentPlayer new_Game = P_one
   \<and> (\<exists>g1 g2 g3.
        Game_addDart (Str ''t20'') new_Game = Inr g1
        \<and> Player.currentScore (player g1 P_one) = Fin 441 \<and> currentPlayer g1 = P_one
        \<and> Game_addDart (Str ''t20'') g1 = Inr g2
        \<and> Player.currentScore (player g2 P_one) = Fin 381 \<and> currentPlayer g2 = P_one
        \<and> Game_addDart (Str ''t20'') g2 = Inr g3
        \<and> Player.currentScore (player g3 P_one) = Fin 321 \<and> currentPlayer g3 = P_two
        \<and> (\<exists>t. currentThrow (player g3 P_one) = Some t \<and> total t = VNum (Fin 180))
        \<and> Player.id' (player g3 (currentPlayer g3)) = 2)"
proof -
  have v: "getDartValueFromID (Str ''t20'') = Fin 60" by (simp add: value_simps)
  have u: "getDartValueFromID Undefined = Fin 0" by (simp add: getDartValueFromID_def)
  note ev = Game_addDart_eq new_Game_def new_Player_def playerAfter_def throwsAfter_def
    isThrowComplete_def new_Throw_def Throw_addDart_eq emptyThrow_def slotSum_def
    switchPlayers_def currentThrow_def v u toDouble_exact
  have s1: "Game_addDart (Str ''t20'') new_Game = Inr (played [Str ''t20''])"
    by (simp add: played_def ev)
  have s2: "Game_addDart (Str ''t20'') (played [Str ''t20''])
      = Inr (played [Str ''t20'', Str ''t20''])"
    by (simp add: played_def ev)
  have s3: "Game_addDart (Str ''t20'') (played [Str ''t20'', Str ''t20''])
      = Inr (played [Str ''t20'', Str ''t20'', Str ''t20''])"
    by (simp add: played_def ev)
  have a0: "Player.currentScore (player new_Game P_one) = Fin 501 \<and> currentPlayer new_Game = P_one"
    by (simp add: ev)
  have a1: "Player.currentScore (player (played [Str ''t20'']) P_one) = Fin 441
      \<and> currentPlayer (played [Str ''t20'']) = P_one"
    by (simp add: played_def ev)
  have a2: "Player.currentScore (player (played [Str ''t20'', Str ''t20'']) P_one) = Fin 381
      \<and> currentPlayer (played [Str ''t20'', Str ''t20'']) = P_one"
    by (simp add: played_def ev)
  have a3: "Player.currentScore (player (played [Str ''t20'', Str ''t20'', Str ''t20'']) P_one)
      = Fin 321
      \<and> currentPlayer (played [Str ''t20'', Str ''t20'', Str ''t20'']) = P_two"
    by (simp add: played_def ev)
  have a4: "\<exists>t. currentThrow (player (played [Str ''t20'', Str ''t20'', Str ''t20'']) P_one)
      = Some t \<and> total t = VNum (Fin 180)"
    by (simp add: played_def ev)
  have a5: "Player.id' (player (played [Str ''t20'', Str ''t20'', Str ''t20''])
      (currentPlayer (played [Str ''t20'', Str ''t20'', Str ''t20'']))) = 2"
    by (simp add: played_def ev)
  from a0 s1 s2 s3 a1 a2 a3 a4 a5 show ?thesis by blast
qed

subsection \<open>The duplicate computation of the score\<close>

lemma Throw_addDart_returning_eq:
  "Throw_addDart_returning i cs t =
     (js_sub cs (getDartValueFromID i), snd (Throw_addDart i cs t))"
  by (simp add: Throw_addDart_returning_def Throw_addDart_def calculateCurrentScore_def Let_def)

lemma Player_addDart_returning_eq:
  "Player_addDart_returning i p =
     (case Player_addDart i p of
        Inl e \<Rightarrow> Inl e
      | Inr p' \<Rightarrow> Inr (js_sub (Player.currentScore p) (getDartValueFromID i), p'))"
  by (simp add: Player_addDart_returning_def Player_addDart_def Throw_addDart_returning_eq
      Let_def currentThrow_def split: option.splits)

lemma Game_addDart_single_eq: "Game_addDart_single i g = Game_addDart i g"
proof (cases "throws (player g (currentPlayer g)) = []")
  case True
  then show ?thesis
    by (simp add: Game_addDart_single_def Game_addDart_def Player_addDart_returning_eq
        Player_addDart_def currentThrow_def)
next
  case False
  have pa: "(p\<lparr>throws := throwsAfter i p\<rparr>)
      \<lparr>Player.currentScore := js_sub (Player.currentScore p) (getDartValueFromID i)\<rparr>
      = playerAfter i p" for p
    by (simp add: playerAfter_def)
  have ct: "currentThrow (playerAfter i p) = Some (last (throws (playerAfter i p)))" for p
    by (simp add: currentThrow_def playerAfter_def throwsAfter_nonempty)
  show ?thesis
    unfolding Game_addDart_eq[OF False]
    by (simp add: Game_addDart_single_def Player_addDart_returning_eq
        Player_addDart_eq[OF False] pa ct Let_def)
qed

text \<open>
  \<^bold>\<open>C8.\<close> In every reachable Game state and for every identifier, the second
  \<^verbatim>\<open>calculateCurrentScore\<close> call of \<^verbatim>\<open>Game.addDart\<close> (step 2) returns the value that
  the call inside \<^verbatim>\<open>Throw.addDart\<close> has already stored on the Throw, and leaves the
  Throw as it is; after \<^verbatim>\<open>Game.addDart\<close> the score of the player who threw equals the
  score stored on that player's current Throw; and the variant that reads the value
  computed inside \<^verbatim>\<open>Throw.addDart\<close> instead of recomputing it yields the same Game.
  (Equality of scores is sameness of value, NaN included.)
\<close>

theorem duplicate_score_idempotent:
  assumes "reachable g"
  shows "\<exists>g' p1 t1.
       Player_addDart i (player g (currentPlayer g)) = Inr p1
     \<and> currentThrow p1 = Some t1
     \<and> VNum (fst (calculateCurrentScore (Player.currentScore p1) i t1)) = Throw.currentScore t1
     \<and> snd (calculateCurrentScore (Player.currentScore p1) i t1) = t1
     \<and> Game_addDart i g = Inr g'
     \<and> Game_addDart_single i g = Inr g'
     \<and> (\<exists>t. currentThrow (player g' (currentPlayer g)) = Some t
            \<and> Throw.currentScore t = VNum (Player.currentScore (player g' (currentPlayer g))))"
proof -
  let ?p = "player g (currentPlayer g)"
  let ?p1 = "?p\<lparr>throws := throwsAfter i ?p\<rparr>"
  let ?t1 = "last (throwsAfter i ?p)"
  have i0: "inv g" using assms by (rule reachable_inv)
  then have ne: "throws ?p \<noteq> []"
    by (cases "currentPlayer g") (simp_all add: inv_def)
  have a: "Player_addDart i ?p = Inr ?p1" by (rule Player_addDart_eq[OF ne])
  have b: "currentThrow ?p1 = Some ?t1"
    by (simp add: currentThrow_def throwsAfter_nonempty)
  have again: "calculateCurrentScore (Player.currentScore ?p1) i ?t1 =
      (js_sub (Player.currentScore ?p) (getDartValueFromID i), ?t1)"
    unfolding last_throwsAfter by (simp add: calculateCurrentScore_again)
  have stored: "Throw.currentScore ?t1 = VNum (js_sub (Player.currentScore ?p) (getDartValueFromID i))"
    unfolding last_throwsAfter by (rule Throw_addDart_currentScore)
  from Game_addDart_facts[OF i0, of i] obtain g' where
    s: "Game_addDart i g = Inr g'"
    and p': "player g' (currentPlayer g) = playerAfter i ?p"
    by blast
  have v: "Game_addDart_single i g = Inr g'" using s by (simp add: Game_addDart_single_eq)
  have fin: "currentThrow (player g' (currentPlayer g)) = Some ?t1
      \<and> Throw.currentScore ?t1 = VNum (Player.currentScore (player g' (currentPlayer g)))"
    unfolding p' using stored
    by (simp add: currentThrow_def playerAfter_def throwsAfter_nonempty)
  from a b again stored s v fin show ?thesis
    by (intro exI[of _ g'] exI[of _ ?p1] exI[of _ ?t1]) simp
qed

theorem duplicate_score_idempotent_witness:
  "reachable new_Game
   \<and> (\<exists>g'. Game_addDart (Str ''t20'') new_Game = Inr g'
         \<and> Game_addDart_single (Str ''t20'') new_Game = Inr g'
         \<and> (\<exists>t. currentThrow (player g' P_one) = Some t
               \<and> Throw.currentScore t = VNum (Player.currentScore (player g' P_one))))"
proof -
  have k: "currentPlayer new_Game = P_one" by (simp add: new_Game_def)
  from duplicate_score_idempotent[OF reachable.fresh, of "Str ''t20''"] reachable.fresh
  show ?thesis unfolding k by blast
qed

subsection \<open>Scores along a run\<close>

lemma finite_value:
  assumes "getDartValueFromID i \<noteq> NaN" "getDartValueFromID i \<noteq> PInf"
    "getDartValueFromID i \<noteq> NInf"
  shows "getDartValueFromID i = Fin (intValue i)"
  using assms by (cases "getDartValueFromID i") (simp_all add: intValue_def)

lemma scores_run:
  assumes "inv g"
    and "\<forall>i \<in> set is. getDartValueFromID i = Fin (intValue i)"
    and "\<bar>s\<bar> + sum_list (map (\<lambda>i. \<bar>intValue i\<bar>) is) \<le> 9007199254740992"
    and "Player.currentScore (player g k) = Fin s"
  shows "\<exists>g'. addDarts is g = Inr g'
     \<and> Player.currentScore (player g' k) = Fin (s - sum_list (map intValue (dartsOf k is g)))"
  using assms
proof (induction "is" arbitrary: g s)
  case Nil
  then show ?case by simp
next
  case (Cons i "is")
  from Cons.prems(2) have vi: "getDartValueFromID i = Fin (intValue i)"
    and rest: "\<forall>j \<in> set is. getDartValueFromID j = Fin (intValue j)"
    by simp_all
  let ?rest = "sum_list (map (\<lambda>i. \<bar>intValue i\<bar>) is)"
  have nn: "0 \<le> ?rest" by (rule sum_list_nonneg) auto
  from Cons.prems(3) have b: "\<bar>s\<bar> + \<bar>intValue i\<bar> + ?rest \<le> 9007199254740992" by simp
  from Game_addDart_facts[OF Cons.prems(1), of i] obtain g1 where
    s1: "Game_addDart i g = Inr g1" and i1: "inv g1"
    and cur: "player g1 (currentPlayer g) = playerAfter i (player g (currentPlayer g))"
    and oth: "\<And>j. j \<noteq> currentPlayer g \<Longrightarrow> player g1 j = player g j"
    by blast
  show ?case
  proof (cases "currentPlayer g = k")
    case True
    have small: "\<bar>s - intValue i\<bar> \<le> 9007199254740992" using b nn by linarith
    have "js_sub (Fin s) (getDartValueFromID i) = Fin (s - intValue i)"
      unfolding vi js_sub.simps by (rule toDouble_exact[OF small])
    then have sc: "Player.currentScore (player g1 k) = Fin (s - intValue i)"
      using cur True Cons.prems(4) by (simp add: playerAfter_def)
    have b': "\<bar>s - intValue i\<bar> + ?rest \<le> 9007199254740992" using b by linarith
    from Cons.IH[OF i1 rest b' sc] s1 True show ?thesis
      by (simp add: algebra_simps)
  next
    case False
    then have sc: "Player.currentScore (player g1 k) = Fin s"
      using oth[of k] Cons.prems(4) by simp
    have b': "\<bar>s\<bar> + ?rest \<le> 9007199254740992" using b by linarith
    from Cons.IH[OF i1 rest b' sc] s1 False show ?thesis by simp
  qed
qed

text \<open>
  \<^bold>\<open>C10\<close>, as stated: after a run of \<^verbatim>\<open>Game.addDart\<close> calls from a fresh Game
  whose identifiers all resolve to numeric values, each player's score would be 501
  minus the sum of the values of the darts that player received.  Scores are doubles:
  with \<^verbatim>\<open>"s1152921504606846976"\<close> (worth \<open>2^60\<close>) and then
  \<^verbatim>\<open>"s-1152921504606846976"\<close> (worth \<open>-2^60\<close>), the first subtraction rounds
  \<open>501 - 2^60\<close> to \<open>-(2^60 - 512)\<close>, and Player 1 ends at 512, not at 501.
\<close>

theorem rounded_score_counterexample:
  "numeric (Str ''s1152921504606846976'') \<and> numeric (Str ''s-1152921504606846976'')
   \<and> intValue (Str ''s1152921504606846976'') = 1152921504606846976
   \<and> intValue (Str ''s-1152921504606846976'') = - 1152921504606846976
   \<and> dartsOf P_one [Str ''s1152921504606846976'', Str ''s-1152921504606846976''] new_Game
        = [Str ''s1152921504606846976'', Str ''s-1152921504606846976'']
   \<and> addDarts [Str ''s1152921504606846976'', Str ''s-1152921504606846976''] new_Game
        = Inr (played [Str ''s1152921504606846976'', Str ''s-1152921504606846976''])
   \<and> Player.currentScore
        (player (played [Str ''s1152921504606846976'', Str ''s-1152921504606846976'']) P_one)
        = Fin 512
   \<and> Player.currentScore
        (player (played [Str ''s1152921504606846976'', Str ''s-1152921504606846976'']) P_one)
        \<noteq> Fin (501 - sum_list (map intValue
            (dartsOf P_one [Str ''s1152921504606846976'', Str ''s-1152921504606846976'']
               new_Game)))"
proof -
  have r: "toDouble 1152921504606846976 = Fin 1152921504606846976"
    "toDouble (- 1152921504606846976) = Fin (- 1152921504606846976)"
    "toDouble (- 1152921504606846475) = Fin (- 1152921504606846464)"
    by (simp_all add: toDouble_def roundInt_def Let_def exponentOf.simps)
  have v: "getDartValueFromID (Str ''s1152921504606846976'') = Fin 1152921504606846976"
    "getDartValueFromID (Str ''s-1152921504606846976'') = Fin (- 1152921504606846976)"
    "getDartValueFromID Undefined = Fin 0"
    by (simp_all add: getDartValueFromID_def parseInt_def Let_def StrWhiteSpaceChar_def
        radixDigit_def digitValue_def mathInt_def r)
  note ev = Game_addDart_eq new_Game_def new_Player_def playerAfter_def throwsAfter_def
    isThrowComplete_def new_Throw_def Throw_addDart_eq emptyThrow_def slotSum_def
    switchPlayers_def v r toDouble_exact
  have n: "numeric (Str ''s1152921504606846976'')" "numeric (Str ''s-1152921504606846976'')"
    by (simp_all add: numeric_def v)
  have iv: "intValue (Str ''s1152921504606846976'') = 1152921504606846976"
    "intValue (Str ''s-1152921504606846976'') = - 1152921504606846976"
    by (simp_all add: intValue_def v)
  have d: "dartsOf P_one [Str ''s1152921504606846976'', Str ''s-1152921504606846976''] new_Game
        = [Str ''s1152921504606846976'', Str ''s-1152921504606846976'']"
    by (simp add: ev)
  have a: "addDarts [Str ''s1152921504606846976'', Str ''s-1152921504606846976''] new_Game
        = Inr (played [Str ''s1152921504606846976'', Str ''s-1152921504606846976''])"
    by (simp add: played_def ev)
  have s: "Player.currentScore
        (player (played [Str ''s1152921504606846976'', Str ''s-1152921504606846976'']) P_one)
        = Fin 512"
    by (simp add: played_def ev)
  have e: "Fin (501 - sum_list (map intValue
            (dartsOf P_one [Str ''s1152921504606846976'', Str ''s-1152921504606846976'']
               new_Game))) = Fin 501"
    unfolding d by (simp add: iv)
  show ?thesis
    unfolding e s using n iv d a by simp
qed

text \<open>
  \<^bold>\<open>C10\<close>, amended: after any run of \<^verbatim>\<open>Game.addDart\<close> calls on a fresh Game
  whose identifiers all resolve to numeric values that are finite, with 501 plus the sum
  of their magnitudes at most \<open>2^53\<close> (so that every value and every running score is
  an integer that a double holds exactly), the run has raised nothing and each player's
  score is 501 minus the sum of the values of the darts that player has received (the
  identifiers passed while that player was the current one); and every call from a
  reachable state leaves the Player who is not the current one unchanged.
\<close>

theorem score_is_501_minus_darts:
  assumes "\<forall>i \<in> set is. numeric i" and "withinSafeRange is"
  shows "(\<exists>g. addDarts is new_Game = Inr g
       \<and> (\<forall>k. Player.currentScore (player g k) =
              Fin (501 - sum_list (map intValue (dartsOf k is new_Game)))))
     \<and> (\<forall>g0 i g1 k. reachable g0 \<longrightarrow> Game_addDart i g0 = Inr g1 \<longrightarrow> k \<noteq> currentPlayer g0 \<longrightarrow>
            player g1 k = player g0 k)"
proof
  have start: "Player.currentScore (player new_Game k) = Fin 501" for k
    by (cases k) (simp_all add: new_Game_def new_Player_def)
  have vals: "\<forall>i \<in> set is. getDartValueFromID i = Fin (intValue i)"
    using assms by (auto simp: numeric_def withinSafeRange_def intro: finite_value)
  have bound: "\<bar>501\<bar> + sum_list (map (\<lambda>i. \<bar>intValue i\<bar>) is) \<le> 9007199254740992"
    using assms(2) by (simp add: withinSafeRange_def)
  from addDarts_total[OF inv_new_Game] obtain g where g: "addDarts is new_Game = Inr g"
    by blast
  have "Player.currentScore (player g k) =
      Fin (501 - sum_list (map intValue (dartsOf k is new_Game)))" for k
    using scores_run[OF inv_new_Game vals bound start, of k] g by simp
  with g show "\<exists>g. addDarts is new_Game = Inr g
       \<and> (\<forall>k. Player.currentScore (player g k) =
              Fin (501 - sum_list (map intValue (dartsOf k is new_Game))))"
    by blast
next
  show "\<forall>g0 i g1 k. reachable g0 \<longrightarrow> Game_addDart i g0 = Inr g1 \<longrightarrow> k \<noteq> currentPlayer g0 \<longrightarrow>
            player g1 k = player g0 k"
  proof (intro allI impI)
    fix g0 i g1 k
    assume "reachable g0" and s: "Game_addDart i g0 = Inr g1" and k: "k \<noteq> currentPlayer g0"
    then have "inv g0" by (simp add: reachable_inv)
    from player_step[OF this s, of k] k show "player g1 k = player g0 k" by simp
  qed
qed

theorem score_is_501_minus_darts_witness:
  "numeric (Str ''t20'') \<and> numeric (Str ''Bull'') \<and> numeric Undefined \<and> numeric (Str ''d20'')
   \<and> numeric (Str ''s1'')
   \<and> withinSafeRange [Str ''t20'', Str ''Bull'', Undefined, Str ''d20'', Str ''s1'']
   \<and> dartsOf P_one [Str ''t20'', Str ''Bull'', Undefined, Str ''d20'', Str ''s1''] new_Game
        = [Str ''t20'', Str ''Bull'', Undefined, Str ''d20'']
   \<and> dartsOf P_two [Str ''t20'', Str ''Bull'', Undefined, Str ''d20'', Str ''s1''] new_Game
        = [Str ''s1'']
   \<and> Player.currentScore
        (player (played [Str ''t20'', Str ''Bull'', Undefined, Str ''d20'', Str ''s1'']) P_one)
        = Fin 351
   \<and> Player.currentScore
        (player (played [Str ''t20'', Str ''Bull'', Undefined, Str ''d20'', Str ''s1'']) P_two)
        = Fin 500"
proof -
  have v: "getDartValueFromID (Str ''t20'') = Fin 60" "getDartValueFromID (Str ''Bull'') = Fin 50"
    "getDartValueFromID Undefined = Fin 0" "getDartValueFromID (Str ''d20'') = Fin 40"
    "getDartValueFromID (Str ''s1'') = Fin 1"
    by (simp_all add: value_simps)
  have n: "\<forall>i \<in> set [Str ''t20'', Str ''Bull'', Undefined, Str ''d20'', Str ''s1'']. numeric i"
    by (simp add: numeric_def v)
  have w: "withinSafeRange [Str ''t20'', Str ''Bull'', Undefined, Str ''d20'', Str ''s1'']"
    by (simp add: withinSafeRange_def intValue_def v)
  note ev = Game_addDart_eq new_Game_def new_Player_def playerAfter_def throwsAfter_def
    isThrowComplete_def new_Throw_def Throw_addDart_eq emptyThrow_def slotSum_def
    switchPlayers_def v toDouble_exact
  have d1: "dartsOf P_one [Str ''t20'', Str ''Bull'', Undefined, Str ''d20'', Str ''s1''] new_Game
        = [Str ''t20'', Str ''Bull'', Undefined, Str ''d20'']"
    by (simp add: ev)
  have d2: "dartsOf P_two [Str ''t20'', Str ''Bull'', Undefined, Str ''d20'', Str ''s1''] new_Game
        = [Str ''s1'']"
    by (simp add: ev)
  from score_is_501_minus_darts[OF n w] obtain g where
    g: "addDarts [Str ''t20'', Str ''Bull'', Undefined, Str ''d20'', Str ''s1''] new_Game = Inr g"
    and sc: "\<And>k. Player.currentScore (player g k) = Fin (501 - sum_list (map intValue
        (dartsOf k [Str ''t20'', Str ''Bull'', Undefined, Str ''d20'', Str ''s1''] new_Game)))"
    by blast
  have pl: "played [Str ''t20'', Str ''Bull'', Undefined, Str ''d20'', Str ''s1''] = g"
    unfolding played_def g by simp
  have "Player.currentScore (player g P_one) = Fin 351"
    unfolding sc d1 by (simp add: intValue_def v)
  moreover have "Player.currentScore (player g P_two) = Fin 500"
    unfolding sc d2 by (simp add: intValue_def v)
  ultimately show ?thesis
    unfolding pl using d1 d2 w by (simp add: numeric_def v)
qed

end
